theory Spec2Isabelle
  imports Complex_Main
begin

section \<open>The environment of the recovery utilities\<close>

text \<open>
  The circuit breaker and the retry manager of \<^verbatim>\<open>guide/error-handling-strategy.md\<close>
  wrap an asynchronous function and read four things of the host: the clock
  (\<^verbatim>\<open>Date.now()\<close>), the random source (\<^verbatim>\<open>Math.random()\<close>), the timer
  (\<^verbatim>\<open>setTimeout\<close>) and the arithmetic on numbers. The environment makes them
  explicit. Calls are taken one at a time (each call is awaited before the next one
  starts) and synchronous code takes no time.
\<close>

subsection \<open>Numbers\<close>

text \<open>
  A JavaScript number is a double: not a number, an infinity, or a finite value (the
  two zeros are not told apart). The clock and the timeouts of the breaker are only
  subtracted and compared, and are reals.
\<close>

datatype jsnum = NaN | NegInf | Fin real | PosInf

text \<open>\<^verbatim>\<open>x <= y\<close>: false as soon as one side is \<^verbatim>\<open>NaN\<close>.\<close>

fun js_leq :: "jsnum \<Rightarrow> jsnum \<Rightarrow> bool" where
  "js_leq NaN y = False"
| "js_leq x NaN = False"
| "js_leq NegInf y = True"
| "js_leq x PosInf = True"
| "js_leq (Fin x) (Fin y) = (x \<le> y)"
| "js_leq x y = False"

text \<open>\<^verbatim>\<open>Math.min(x, y)\<close>: \<^verbatim>\<open>NaN\<close> as soon as one argument is, the smaller one otherwise.\<close>

definition js_min :: "jsnum \<Rightarrow> jsnum \<Rightarrow> jsnum" where
  "js_min x y = (if x = NaN \<or> y = NaN then NaN else if js_leq x y then x else y)"

text \<open>
  What the host computes and rounds: the product, the sum and \<^verbatim>\<open>Math.pow\<close> of two
  numbers, and how long a timer set with \<^verbatim>\<open>setTimeout(resolve, ms)\<close> takes to fire.
  Nothing is assumed of them: the product and the sum are rounded as IEEE 754 says,
  \<^verbatim>\<open>Math.pow\<close> is an approximation that the implementation chooses, and a timer
  fires when the host gets to it.
\<close>

record host =
  js_times :: "jsnum \<Rightarrow> jsnum \<Rightarrow> jsnum"
  js_plus :: "jsnum \<Rightarrow> jsnum \<Rightarrow> jsnum"
  js_pow :: "jsnum \<Rightarrow> jsnum \<Rightarrow> jsnum"
  timer :: "jsnum \<Rightarrow> real"

subsection \<open>The environment\<close>

text \<open>
  \<^item> \<open>now\<close> is what \<^verbatim>\<open>Date.now()\<close> returns;
  \<^item> \<open>rng\<close> and \<open>drawn\<close> are the stream of values of \<^verbatim>\<open>Math.random()\<close> and the
    number of values drawn so far;
  \<^item> \<open>ext\<close> is the state of the external dependency that the wrapped function talks to;
  \<^item> \<open>calls\<close> counts the invocations of the wrapped function. It is bookkeeping of the
    model: the wrapped function can neither read nor write it;
  \<^item> \<open>arith\<close> is the arithmetic and the timer of the host.
\<close>

record 's env =
  now :: real
  rng :: "nat \<Rightarrow> real"
  drawn :: nat
  ext :: 's
  calls :: nat
  arith :: host

text \<open>
  The wrapped function: from the state of the dependency and the time of the call to
  its outcome (\<open>Inl\<close> the error it throws, \<open>Inr\<close> the value it resolves to), the new
  state of the dependency and the time at which its promise settles.
\<close>

type_synonym ('s, 'e, 'a) operation = "'s \<Rightarrow> real \<Rightarrow> ('e + 'a) \<times> 's \<times> real"

definition invoke :: "('s, 'e, 'a) operation \<Rightarrow> 's env \<Rightarrow> ('e + 'a) \<times> 's env" where
  "invoke fn w =
     (case fn (ext w) (now w) of
        (r, s', t') \<Rightarrow> (r, w\<lparr>now := t', ext := s', calls := calls w + 1\<rparr>))"

text \<open>
  What a wrapper throws: \<^verbatim>\<open>null\<close>, an \<^verbatim>\<open>Error\<close> object it builds itself (with its
  message), or the very error the wrapped function threw.
\<close>

datatype 'e thrown = JsNull | JsError string | Raised 'e

section \<open>Circuit breaker\<close>

datatype circuit_state = CLOSED | OPEN | HALF_OPEN

record breaker_options =
  failureThreshold :: int
  timeout :: real
  monitorWindow :: real

definition default_breaker_options :: breaker_options where
  "default_breaker_options =
     \<lparr>failureThreshold = 5, timeout = 60000, monitorWindow = 10000\<rparr>"

record ('s, 'e, 'a) circuit_breaker =
  fn :: "('s, 'e, 'a) operation"
  options :: breaker_options
  state :: circuit_state
  failures :: int
  lastFailureTime :: "real option"
  successes :: "real list"

text \<open>
  The constructor. The caller's options are spread over the defaults; \<open>opts\<close> is the
  merged record.
\<close>

definition new_breaker ::
  "('s, 'e, 'a) operation \<Rightarrow> breaker_options \<Rightarrow> ('s, 'e, 'a) circuit_breaker" where
  "new_breaker f opts =
     \<lparr>fn = f, options = opts, state = CLOSED, failures = 0,
      lastFailureTime = None, successes = []\<rparr>"

text \<open>
  \<^verbatim>\<open>this.lastFailureTime && (Date.now() - this.lastFailureTime) > this.options.timeout\<close>:
  \<^verbatim>\<open>null\<close> and \<^verbatim>\<open>0\<close> are falsy.
\<close>

definition shouldAttemptReset :: "('s, 'e, 'a) circuit_breaker \<Rightarrow> 's env \<Rightarrow> bool" where
  "shouldAttemptReset b w =
     (case lastFailureTime b of
        None \<Rightarrow> False
      | Some t \<Rightarrow> t \<noteq> 0 \<and> now w - t > timeout (options b))"

definition onSuccess ::
  "('s, 'e, 'a) circuit_breaker \<Rightarrow> 's env \<Rightarrow> ('s, 'e, 'a) circuit_breaker" where
  "onSuccess b w =
     (let b1 = b\<lparr>failures := 0, successes := successes b @ [now w]\<rparr>;
          cutoff = now w - monitorWindow (options b1);
          b2 = b1\<lparr>successes := filter (\<lambda>time. time > cutoff) (successes b1)\<rparr>
      in if state b2 = HALF_OPEN then b2\<lparr>state := CLOSED\<rparr> else b2)"

definition onFailure ::
  "('s, 'e, 'a) circuit_breaker \<Rightarrow> 's env \<Rightarrow> ('s, 'e, 'a) circuit_breaker" where
  "onFailure b w =
     (let b1 = b\<lparr>failures := failures b + 1, lastFailureTime := Some (now w)\<rparr>
      in if failures b1 \<ge> failureThreshold (options b1) then b1\<lparr>state := OPEN\<rparr> else b1)"

definition circuit_open_error :: "'e thrown" where
  "circuit_open_error = JsError ''Circuit breaker is OPEN''"

text \<open>
  \<^verbatim>\<open>CircuitBreaker.execute\<close> returns the outcome for the caller, the breaker after the call and the
  environment after the call.
\<close>

definition CircuitBreaker_execute ::
  "('s, 'e, 'a) circuit_breaker \<Rightarrow> 's env \<Rightarrow>
     ('e thrown + 'a) \<times> ('s, 'e, 'a) circuit_breaker \<times> 's env" where
  "CircuitBreaker_execute b w =
     (if state b = OPEN \<and> \<not> shouldAttemptReset b w then (Inl circuit_open_error, b, w)
      else
        let b0 = (if state b = OPEN then b\<lparr>state := HALF_OPEN\<rparr> else b)
        in case invoke (fn b0) w of
             (Inr result, w') \<Rightarrow> (Inr result, onSuccess b0 w', w')
           | (Inl error, w') \<Rightarrow> (Inl (Raised error), onFailure b0 w', w'))"

definition CircuitBreaker_reset :: "('s, 'e, 'a) circuit_breaker \<Rightarrow> ('s, 'e, 'a) circuit_breaker" where
  "CircuitBreaker_reset b = b\<lparr>state := CLOSED, failures := 0, lastFailureTime := None, successes := []\<rparr>"

text \<open>
  The breakers a program can hold: a fresh one, and what \<^verbatim>\<open>execute\<close> and \<^verbatim>\<open>reset\<close>
  leave behind.
\<close>

inductive reachable :: "('s, 'e, 'a) circuit_breaker \<Rightarrow> bool" where
  fresh: "reachable (new_breaker f opts)"
| after_execute: "reachable b \<Longrightarrow> reachable (fst (snd (CircuitBreaker_execute b w)))"
| after_reset: "reachable b \<Longrightarrow> reachable (CircuitBreaker_reset b)"

section \<open>Retry manager\<close>

record 'e retry_options =
  maxAttempts :: int
  baseDelay :: jsnum
  maxDelay :: jsnum
  backoffFactor :: jsnum
  jitter :: bool
  retryCondition :: "'e \<Rightarrow> bool"

text \<open>\<^verbatim>\<open>Math.random()\<close>: the next value of the stream.\<close>

definition random :: "'s env \<Rightarrow> real \<times> 's env" where
  "random w = (rng w (drawn w), w\<lparr>drawn := drawn w + 1\<rparr>)"

text \<open>\<^verbatim>\<open>setTimeout(resolve, ms)\<close>, awaited: the clock moves on by what the timer takes.\<close>

definition sleep :: "jsnum \<Rightarrow> 's env \<Rightarrow> 's env" where
  "sleep ms w = w\<lparr>now := now w + timer (arith w) ms\<rparr>"

text \<open>
  \<^verbatim>\<open>calculateDelay\<close>, with the host's product, sum and \<^verbatim>\<open>Math.pow\<close>. \<open>attempt - 1\<close>
  is a small integer and exact. The random source is read only when \<open>jitter\<close> is set.
\<close>

definition calculateDelay :: "'e retry_options \<Rightarrow> int \<Rightarrow> 's env \<Rightarrow> jsnum \<times> 's env" where
  "calculateDelay opts attempt w =
     (let delay = js_times (arith w) (baseDelay opts)
                    (js_pow (arith w) (backoffFactor opts) (Fin (real_of_int (attempt - 1))));
          delay = js_min delay (maxDelay opts)
      in if jitter opts
         then (case random w of
                 (r, w') \<Rightarrow>
                   (js_times (arith w) delay
                      (js_plus (arith w) (Fin 0.5) (js_times (arith w) (Fin r) (Fin 0.5))),
                    w'))
         else (delay, w))"

text \<open>
  The loop of \<^verbatim>\<open>RetryManager.execute\<close>, from the value of \<open>attempt\<close> on;
  \<open>lastError\<close> is \<open>None\<close> while it is \<^verbatim>\<open>null\<close>. The \<^verbatim>\<open>throw lastError\<close> after the
  loop is the \<open>else\<close> branch.
\<close>

function retry_loop ::
  "'e retry_options \<Rightarrow> ('s, 'e, 'a) operation \<Rightarrow> int \<Rightarrow> 'e option \<Rightarrow> 's env \<Rightarrow>
     ('e thrown + 'a) \<times> 's env" where
  "retry_loop opts f attempt lastError w =
     (if attempt \<le> maxAttempts opts then
        (case invoke f w of
           (Inr result, w') \<Rightarrow> (Inr result, w')
         | (Inl error, w') \<Rightarrow>
             if attempt = maxAttempts opts \<or> \<not> retryCondition opts error
             then (Inl (Raised error), w')
             else (case calculateDelay opts attempt w' of
                     (delay, w'') \<Rightarrow>
                       retry_loop opts f (attempt + 1) (Some error) (sleep delay w'')))
      else (Inl (case lastError of None \<Rightarrow> JsNull | Some e \<Rightarrow> Raised e), w))"
  by pat_completeness auto
termination
  by (relation "measure (\<lambda>(opts, f, attempt, lastError, w). nat (maxAttempts opts + 1 - attempt))")
     auto

declare retry_loop.simps [simp del]

definition RetryManager_execute ::
  "'e retry_options \<Rightarrow> ('s, 'e, 'a) operation \<Rightarrow> 's env \<Rightarrow> ('e thrown + 'a) \<times> 's env" where
  "RetryManager_execute opts f w = retry_loop opts f 1 None w"

text \<open>
  What the retry delays need of the host's arithmetic to be ordered, for a base
  delay \<open>b\<close> and a backoff factor \<open>k\<close>: \<^verbatim>\<open>Math.pow(k, n)\<close> is a number that does not
  decrease as the integer \<open>n \<ge> 0\<close> grows, and the product with \<open>b\<close> keeps the order
  of the numbers it does not send to \<^verbatim>\<open>NaN\<close>.
\<close>

definition monotone_arith :: "host \<Rightarrow> jsnum \<Rightarrow> jsnum \<Rightarrow> bool" where
  "monotone_arith h b k \<longleftrightarrow>
     (\<forall>m n :: int. 0 \<le> m \<and> m \<le> n \<longrightarrow>
        js_leq (js_pow h k (Fin (real_of_int m))) (js_pow h k (Fin (real_of_int n))))
     \<and> (\<forall>x y. js_leq x y \<and> js_times h b x \<noteq> NaN \<and> js_times h b y \<noteq> NaN \<longrightarrow>
          js_leq (js_times h b x) (js_times h b y))"


section \<open>JavaScript values of the bulk product form\<close>

text \<open>
  The values a row of the form holds. A text input is bound with \<^verbatim>\<open>v-model\<close> and holds
  a string; a number input is bound with \<^verbatim>\<open>v-model.number\<close> and holds a number, or
  the empty string when the input is empty; a property that was never set reads
  \<^verbatim>\<open>undefined\<close>. Strings are ASCII; numbers are reals.
\<close>

datatype jsval = Undefined | Null | Str string | Num real

fun truthy :: "jsval \<Rightarrow> bool" where
  "truthy Undefined = False"
| "truthy Null = False"
| "truthy (Str s) = (s \<noteq> [])"
| "truthy (Num r) = (r \<noteq> 0)"

text \<open>White space as \<^verbatim>\<open>trim()\<close> and \<^verbatim>\<open>\s\<close> see it (space, TAB, LF, VT, FF, CR).\<close>

definition white_space :: "char \<Rightarrow> bool" where
  "white_space c = (c \<in> {CHR '' '', CHR 0x09, CHR 0x0A, CHR 0x0B, CHR 0x0C, CHR 0x0D})"

definition trim :: "string \<Rightarrow> string" where
  "trim s = rev (dropWhile white_space (rev (dropWhile white_space s)))"

text \<open>
  \<^verbatim>\<open>!value?.toString().trim()\<close>: the optional chain stops at \<^verbatim>\<open>undefined\<close> and
  \<^verbatim>\<open>null\<close>; a number prints as a string that is neither empty nor blank.
\<close>

fun blank :: "jsval \<Rightarrow> bool" where
  "blank Undefined = True"
| "blank Null = True"
| "blank (Str s) = (trim s = [])"
| "blank (Num r) = False"

text \<open>The decimal digits of a natural number, and \<^verbatim>\<open>String(n)\<close> for an integer.\<close>

fun digits :: "nat \<Rightarrow> string" where
  "digits n =
     (if n < 10 then [''0123456789'' ! n]
      else digits (n div 10) @ [''0123456789'' ! (n mod 10)])"

declare digits.simps [simp del]

definition int_to_string :: "int \<Rightarrow> string" where
  "int_to_string i = (if i < 0 then CHR ''-'' # digits (nat (- i)) else digits (nat i))"

text \<open>
  The argument of \<^verbatim>\<open>RegExp.test\<close> as a string. The cases a text input can reach are
  covered; printing a number is not modelled, so the case \<open>Num\<close> is left open.
\<close>

fun js_String :: "jsval \<Rightarrow> string" where
  "js_String Undefined = ''undefined''"
| "js_String Null = ''null''"
| "js_String (Str s) = s"

text \<open>
  \<^verbatim>\<open>value.length < n\<close> behind the guard \<^verbatim>\<open>value &&\<close>: a number has no \<^verbatim>\<open>length\<close>, and
  \<^verbatim>\<open>undefined < n\<close> is false.
\<close>

fun length_below :: "jsval \<Rightarrow> nat \<Rightarrow> bool" where
  "length_below (Str s) n = (length s < n)"
| "length_below (Num r) n = False"

text \<open>
  \<^verbatim>\<open>value <= x\<close> and \<^verbatim>\<open>value < x\<close> on a number. The comparisons stand behind the guard
  that excludes \<^verbatim>\<open>undefined\<close>, \<^verbatim>\<open>null\<close> and the empty string; converting any other
  string to a number is not modelled.
\<close>

fun js_le :: "jsval \<Rightarrow> real \<Rightarrow> bool" where
  "js_le (Num r) x = (r \<le> x)"

fun js_lt :: "jsval \<Rightarrow> real \<Rightarrow> bool" where
  "js_lt (Num r) x = (r < x)"

text \<open>\<^verbatim>\<open>/^[A-Z0-9-_]{3,50}$/i\<close>\<close>

definition code_char :: "char \<Rightarrow> bool" where
  "code_char c =
     (c \<in> set ''ABCDEFGHIJKLMNOPQRSTUVWXYZabcdefghijklmnopqrstuvwxyz0123456789-_'')"

definition code_pattern :: "string \<Rightarrow> bool" where
  "code_pattern s = (3 \<le> length s \<and> length s \<le> 50 \<and> list_all code_char s)"

text \<open>
  \<^verbatim>\<open>/^[^\s@]+@[^\s@]+\.[^\s@]+$/\<close>: a non-empty part without white space and \<^verbatim>\<open>@\<close>,
  then \<^verbatim>\<open>@\<close>, then a part without white space and \<^verbatim>\<open>@\<close> that has a dot which is
  neither its first nor its last character.
\<close>

definition email_char :: "char \<Rightarrow> bool" where
  "email_char c = (\<not> white_space c \<and> c \<noteq> CHR ''@'')"

definition email_pattern :: "string \<Rightarrow> bool" where
  "email_pattern s =
     (let local = takeWhile (\<lambda>c. c \<noteq> CHR ''@'') s;
          domain = drop (length local + 1) s
      in local \<noteq> [] \<and> length local < length s
         \<and> list_all email_char local \<and> list_all email_char domain
         \<and> domain \<noteq> [] \<and> CHR ''.'' \<in> set (butlast (tl domain)))"

text \<open>\<^verbatim>\<open>s.replace(pattern, replacement)\<close> with a string pattern: the first occurrence.\<close>

fun replace :: "string \<Rightarrow> string \<Rightarrow> string \<Rightarrow> string" where
  "replace pat rep [] = (if pat = [] then rep else [])"
| "replace pat rep (c # cs) =
     (if take (length pat) (c # cs) = pat then rep @ drop (length pat) (c # cs)
      else c # replace pat rep cs)"

section \<open>The bulk product form\<close>

text \<open>
  A field of \<^verbatim>\<open>formFields\<close>, with the properties the script reads (\<^verbatim>\<open>placeholder\<close> and
  \<^verbatim>\<open>step\<close> are read by the template only). \<open>min'\<close> is \<open>None\<close> where \<^verbatim>\<open>min\<close> is
  \<^verbatim>\<open>undefined\<close>.
\<close>

record formField =
  key :: string
  label :: string
  type' :: string
  min' :: "int option"
  required :: bool

definition formFields0 :: "formField list" where
  "formFields0 =
     [\<lparr>key = ''name'', label = ''Name *'', type' = ''text'', min' = None, required = True\<rparr>,
      \<lparr>key = ''price'', label = ''Price *'', type' = ''number'', min' = Some 0, required = True\<rparr>,
      \<lparr>key = ''code'', label = ''Code'', type' = ''text'', min' = None, required = False\<rparr>,
      \<lparr>key = ''category'', label = ''Category *'', type' = ''text'', min' = None, required = True\<rparr>,
      \<lparr>key = ''stock'', label = ''Stock'', type' = ''number'', min' = Some 0, required = False\<rparr>]"

text \<open>
  A row: its client-side identity and the values of its properties (\<open>Undefined\<close> for a
  property that is not set).
\<close>

record product =
  id' :: string
  props :: "string \<Rightarrow> jsval"

text \<open>
  An object with string keys and string values, in insertion order: the \<^verbatim>\<open>errors\<close>
  of a row. \<open>assign k v\<close> is \<^verbatim>\<open>errors[k] = v\<close>.
\<close>

type_synonym errors = "(string \<times> string) list"

fun assign :: "'k \<Rightarrow> 'v \<Rightarrow> ('k \<times> 'v) list \<Rightarrow> ('k \<times> 'v) list" where
  "assign k v [] = [(k, v)]"
| "assign k v (p # ps) = (if fst p = k then (k, v) # ps else p # assign k v ps)"

text \<open>The body of the \<^verbatim>\<open>forEach\<close> of \<^verbatim>\<open>validateProduct\<close>, for one field.\<close>

definition validateField :: "formField \<Rightarrow> product \<Rightarrow> errors \<Rightarrow> errors" where
  "validateField field p errors =
     (let value = props p (key field) in
      if required field \<and> blank value
      then assign (key field) (replace '' *'' [] (label field) @ '' is required'') errors
      else if type' field = ''text'' then
        (let errors1 =
           (if truthy value \<and> key field = ''name'' \<and> length_below value 3
            then assign (key field) ''Product name must be at least 3 characters'' errors
            else errors)
         in if truthy value \<and> key field = ''code'' \<and> \<not> code_pattern (js_String value)
            then assign (key field) ''Invalid code format (3-50 chars, alphanumeric only)'' errors1
            else errors1)
      else if type' field = ''number'' then
        (if value \<noteq> Undefined \<and> value \<noteq> Null \<and> value \<noteq> Str [] then
           (let errors1 =
              (if key field = ''price'' \<and> js_le value 0
               then assign (key field) ''Price must be greater than 0'' errors
               else errors)
            in case min' field of
                 None \<Rightarrow> errors1
               | Some m \<Rightarrow>
                   if js_lt value (real_of_int m)
                   then assign (key field) (''Must be '' @ int_to_string m @ '' or greater'') errors1
                   else errors1)
         else errors)
      else if type' field = ''email'' \<and> truthy value \<and> \<not> email_pattern (js_String value)
      then assign (key field) ''Invalid email format'' errors
      else errors)"

definition validateProduct :: "formField list \<Rightarrow> product \<Rightarrow> errors" where
  "validateProduct fs p = foldl (\<lambda>errors field. validateField field p errors) [] fs"

text \<open>
  The messages that the rules of one field assign to \<^verbatim>\<open>errors[field.key]\<close>, in the
  order in which \<^verbatim>\<open>validateProduct\<close> assigns them.
\<close>

definition field_messages :: "formField \<Rightarrow> product \<Rightarrow> string list" where
  "field_messages field p =
     (let value = props p (key field) in
      if required field \<and> blank value
      then [replace '' *'' [] (label field) @ '' is required'']
      else if type' field = ''text'' then
        (if truthy value \<and> key field = ''name'' \<and> length_below value 3
         then [''Product name must be at least 3 characters''] else [])
        @ (if truthy value \<and> key field = ''code'' \<and> \<not> code_pattern (js_String value)
           then [''Invalid code format (3-50 chars, alphanumeric only)''] else [])
      else if type' field = ''number'' then
        (if value \<noteq> Undefined \<and> value \<noteq> Null \<and> value \<noteq> Str [] then
           (if key field = ''price'' \<and> js_le value 0
            then [''Price must be greater than 0''] else [])
           @ (case min' field of
                None \<Rightarrow> []
              | Some m \<Rightarrow>
                  if js_lt value (real_of_int m)
                  then [''Must be '' @ int_to_string m @ '' or greater''] else [])
         else [])
      else if type' field = ''email'' \<and> truthy value \<and> \<not> email_pattern (js_String value)
      then [''Invalid email format'']
      else [])"

definition hasValidationErrors :: "formField list \<Rightarrow> product \<Rightarrow> bool" where
  "hasValidationErrors fs p = (length (validateProduct fs p) > 0)"

section \<open>State of the component and its actions\<close>

text \<open>An entry of \<^verbatim>\<open>creationResults\<close>; \<open>error\<close> is \<open>None\<close> on the entries without it.\<close>

record result =
  index :: nat
  product :: product
  success :: bool
  error :: "string option"

text \<open>The refs of the component and the counter \<^verbatim>\<open>productIdCounter\<close>.\<close>

record form_state =
  formFields :: "formField list"
  manualProducts :: "product list"
  validationErrors :: "(string \<times> errors) list"
  creating :: bool
  creationResults :: "result list"
  createdCount :: nat
  totalToCreate :: nat
  showPasswords :: "(string \<times> bool) list"
  productIdCounter :: nat

text \<open>
  \<^verbatim>\<open>getFieldError\<close> fills \<^verbatim>\<open>validationErrors\<close> for a row that has no entry there, and
  answers from the entry; it returns the answer (\<open>None\<close> for \<^verbatim>\<open>null\<close>) and the state.
  An entry, once there, is a non-empty object and so truthy.
\<close>

definition getFieldError ::
  "form_state \<Rightarrow> product \<Rightarrow> string \<Rightarrow> string option \<times> form_state" where
  "getFieldError st p field =
     (let productId = id' p;
          st1 =
            (if map_of (validationErrors st) productId = None then
               (let errors = validateProduct (formFields st) p
                in if length errors > 0
                   then st\<lparr>validationErrors := assign productId errors (validationErrors st)\<rparr>
                   else st)
             else st)
      in (case map_of (validationErrors st1) productId of
            None \<Rightarrow> None
          | Some errors \<Rightarrow>
              (case map_of errors field of
                 None \<Rightarrow> None
               | Some message \<Rightarrow> if message = [] then None else Some message),
          st1))"

definition validateAll :: "form_state \<Rightarrow> bool \<times> form_state" where
  "validateAll st =
     (let newValidationErrors =
            foldl (\<lambda>new p.
                     let errors = validateProduct (formFields st) p
                     in if length errors > 0 then assign (id' p) errors new else new)
                  [] (manualProducts st)
      in (length newValidationErrors = 0, st\<lparr>validationErrors := newValidationErrors\<rparr>))"

definition resetManualProducts :: "form_state \<Rightarrow> form_state" where
  "resetManualProducts st =
     st\<lparr>manualProducts := [], validationErrors := [], creationResults := [],
        createdCount := 0, totalToCreate := 0, productIdCounter := 0, showPasswords := []\<rparr>"

text \<open>
  \<^verbatim>\<open>removeProduct\<close>, the handler of the Remove button of the row at index \<open>i\<close> (the
  button is rendered for the rows of \<open>manualProducts\<close>, so the index is in range).
\<close>

definition removeProduct :: "nat \<Rightarrow> form_state \<Rightarrow> form_state" where
  "removeProduct i st =
     (let p = manualProducts st ! i
      in st\<lparr>validationErrors := filter (\<lambda>entry. fst entry \<noteq> id' p) (validationErrors st),
            manualProducts := take i (manualProducts st) @ drop (i + 1) (manualProducts st)\<rparr>)"

subsection \<open>The network\<close>

text \<open>
  What \<^verbatim>\<open>fetch\<close> and \<^verbatim>\<open>response.json()\<close> can do: the request is rejected (with the
  message of the error), or a response arrives with its \<^verbatim>\<open>ok\<close> flag and status, whose
  body parses (\<open>None\<close>) or fails to parse (the message of the error).
\<close>

datatype fetch_outcome = Rejected string | Response bool int "string option"

text \<open>
  The network: the state of the server and the log of the rows that were posted. The
  log is bookkeeping of the model. The server is a function from its state and the
  posted row to the outcome and its new state.
\<close>

record 'n net =
  server :: 'n
  posted :: "product list"

type_synonym 'n backend = "'n \<Rightarrow> product \<Rightarrow> fetch_outcome \<times> 'n"

definition fetch :: "'n backend \<Rightarrow> product \<Rightarrow> 'n net \<Rightarrow> fetch_outcome \<times> 'n net" where
  "fetch respond body w =
     (case respond (server w) body of
        (outcome, n') \<Rightarrow> (outcome, \<lparr>server = n', posted = posted w @ [body]\<rparr>))"

text \<open>
  \<^verbatim>\<open>apiRequest('/products', {method: 'POST', body: JSON.stringify(product)})\<close>: \<open>Inl\<close>
  the message of the error thrown, \<open>Inr\<close> when the parsed body is returned (the caller
  drops it).
\<close>

definition apiRequest :: "'n backend \<Rightarrow> product \<Rightarrow> 'n net \<Rightarrow> (string + unit) \<times> 'n net" where
  "apiRequest respond body w =
     (case fetch respond body w of
        (Rejected message, w') \<Rightarrow> (Inl message, w')
      | (Response ok status parsed, w') \<Rightarrow>
          if \<not> ok then (Inl (''HTTP error! status: '' @ int_to_string status), w')
          else (case parsed of
                  Some message \<Rightarrow> (Inl message, w')
                | None \<Rightarrow> (Inr (), w')))"

subsection \<open>The user, while a request is in flight\<close>

text \<open>
  \<^verbatim>\<open>createAllProducts\<close> awaits every request, and while it waits the form stays in use:
  the inputs of the rows, Add Product, Remove and Validate All are enabled, and the
  template calls \<^verbatim>\<open>getFieldError\<close> whenever it renders (only Create All Products is
  disabled while \<open>creating\<close> is set). What happens during one wait is an \<open>activity\<close>:
  \<^item> \<open>act\<close> gives the refs that these handlers write, \<open>manualProducts\<close>,
    \<open>validationErrors\<close>, \<open>showPasswords\<close> and \<open>productIdCounter\<close>, their new values; no
    handler but \<^verbatim>\<open>createAllProducts\<close> itself writes the other refs;
  \<^item> a row is an object, and an entry of \<open>creationResults\<close> holds the row itself, so an
    edit of a row shows in the entries that hold it: \<open>edit\<close> is what a row looks like
    after the wait. Rows are told apart by what they hold (the rows of a form differ
    in their \<open>id\<close>).
  Nothing is assumed of an activity: rows may be edited, added and removed.
\<close>

record activity =
  act :: "form_state \<Rightarrow> form_state"
  edit :: "product \<Rightarrow> product"

definition meanwhile :: "activity \<Rightarrow> form_state \<Rightarrow> form_state" where
  "meanwhile a st =
     (let u = act a st in
      st\<lparr>manualProducts := manualProducts u, validationErrors := validationErrors u,
         showPasswords := showPasswords u, productIdCounter := productIdCounter u,
         creationResults := map (\<lambda>r. r\<lparr>product := edit a (product r)\<rparr>) (creationResults st)\<rparr>)"

text \<open>The user: the activity during a request, given the state the request leaves the server in.\<close>

type_synonym 'n user = "'n \<Rightarrow> activity"

text \<open>A user who leaves the rows as they are while the requests are in flight.\<close>

definition leaves_rows_alone :: "'n user \<Rightarrow> bool" where
  "leaves_rows_alone user \<longleftrightarrow>
     (\<forall>n st. manualProducts (act (user n) st) = manualProducts st) \<and> (\<forall>n p. edit (user n) p = p)"

subsection \<open>Creating all products\<close>

text \<open>
  The body of the \<^verbatim>\<open>for\<close> loop of \<^verbatim>\<open>createAllProducts\<close> for one value of \<open>i\<close>: the row
  is read, posted as it is then, and after the wait its outcome is pushed and the
  counter raised. Nothing in the body of the outer \<^verbatim>\<open>try\<close> throws past the inner one,
  so the outer \<^verbatim>\<open>catch\<close> has no branch here.
\<close>

definition create_step ::
  "'n backend \<Rightarrow> 'n user \<Rightarrow> nat \<Rightarrow> form_state \<Rightarrow> 'n net \<Rightarrow> form_state \<times> 'n net" where
  "create_step respond user i st w =
     (let p = manualProducts st ! i in
      case apiRequest respond p w of
        (outcome, w') \<Rightarrow>
          (let a = user (server w');
               st' = meanwhile a st;
               entry = (case outcome of
                          Inr u \<Rightarrow> \<lparr>index = i, product = edit a p, success = True, error = None\<rparr>
                        | Inl message \<Rightarrow>
                            \<lparr>index = i, product = edit a p, success = False,
                             error = Some message\<rparr>)
           in (st'\<lparr>creationResults := creationResults st' @ [entry],
                   createdCount := createdCount st' + 1\<rparr>, w')))"

text \<open>
  The loop, from the value of \<open>i\<close> on. The row list is read anew in every round, so
  the loop need not end (a user can add a row during every wait): \<open>None\<close> is the run
  that never returns.
\<close>

partial_function (option) create_loop ::
  "'n backend \<Rightarrow> 'n user \<Rightarrow> nat \<Rightarrow> form_state \<Rightarrow> 'n net \<Rightarrow> (form_state \<times> 'n net) option" where
  "create_loop respond user i st w =
     (if i < length (manualProducts st) then
        (case create_step respond user i st w of
           (st', w') \<Rightarrow> create_loop respond user (i + 1) st' w')
      else Some (st, w))"

text \<open>
  The body of the outer \<^verbatim>\<open>try\<close> up to the end of the loop: the progress refs are
  set and the rows are posted in turn.
\<close>

definition submitAll ::
  "'n backend \<Rightarrow> 'n user \<Rightarrow> form_state \<Rightarrow> 'n net \<Rightarrow> (form_state \<times> 'n net) option" where
  "submitAll respond user st w =
     create_loop respond user 0
       (st\<lparr>creating := True, createdCount := 0,
           totalToCreate := length (manualProducts st), creationResults := []\<rparr>) w"

text \<open>
  \<^verbatim>\<open>createAllProducts\<close> returns the state, the network and the messages shown with
  \<^verbatim>\<open>alert\<close>, when it returns. \<open>failCount\<close> is an integer, as the difference is in the
  source.
\<close>

definition createAllProducts ::
  "'n backend \<Rightarrow> 'n user \<Rightarrow> form_state \<Rightarrow> 'n net \<Rightarrow>
     (form_state \<times> 'n net \<times> string list) option" where
  "createAllProducts respond user st w =
     (case validateAll st of
        (valid, st1) \<Rightarrow>
          if \<not> valid
          then Some (st1, w, [''Please fix validation errors before creating products''])
          else
            (case submitAll respond user st1 w of
               None \<Rightarrow> None
             | Some (st3, w') \<Rightarrow>
                 (let successCount = length (filter success (creationResults st3));
                      failCount = int (totalToCreate st3) - int successCount
                  in if failCount = 0
                     then Some ((resetManualProducts st3)\<lparr>creating := False\<rparr>, w',
                                [''Successfully created '' @ int_to_string (int successCount)
                                   @ '' products''])
                     else Some (st3\<lparr>creating := False\<rparr>, w',
                                [''Created '' @ int_to_string (int successCount)
                                   @ '' products, '' @ int_to_string failCount
                                   @ '' failed'']))))"

section \<open>Sample inputs\<close>

text \<open>A dependency that is down: every call throws \<open>''boom''\<close> ten milliseconds later.\<close>

definition always_fail :: "(unit, string, unit) operation" where
  "always_fail s t = (Inl ''boom'', s, t + 10)"

text \<open>
  An arithmetic for the examples: exact on finite values, with overflow to the
  infinities beyond the largest double and the rules of IEEE 754 and of
  \<^verbatim>\<open>Math.pow\<close> for \<^verbatim>\<open>NaN\<close> and the infinities. It agrees with the doubles wherever
  the exact result is a double, as it is in every example below. Its timer takes
  exactly the delay asked for, and no time for a delay that is negative or not finite.
\<close>

definition max_double :: real where
  "max_double = (2 ^ 53 - 1) * 2 ^ 971"

definition fin :: "real \<Rightarrow> jsnum" where
  "fin r = (if r > max_double then PosInf else if r < - max_double then NegInf else Fin r)"

fun ideal_times :: "jsnum \<Rightarrow> jsnum \<Rightarrow> jsnum" where
  "ideal_times NaN y = NaN"
| "ideal_times x NaN = NaN"
| "ideal_times (Fin x) (Fin y) = fin (x * y)"
| "ideal_times (Fin x) PosInf = (if x = 0 then NaN else if x > 0 then PosInf else NegInf)"
| "ideal_times (Fin x) NegInf = (if x = 0 then NaN else if x > 0 then NegInf else PosInf)"
| "ideal_times PosInf (Fin y) = (if y = 0 then NaN else if y > 0 then PosInf else NegInf)"
| "ideal_times NegInf (Fin y) = (if y = 0 then NaN else if y > 0 then NegInf else PosInf)"
| "ideal_times PosInf PosInf = PosInf"
| "ideal_times PosInf NegInf = NegInf"
| "ideal_times NegInf PosInf = NegInf"
| "ideal_times NegInf NegInf = PosInf"

fun ideal_plus :: "jsnum \<Rightarrow> jsnum \<Rightarrow> jsnum" where
  "ideal_plus NaN y = NaN"
| "ideal_plus x NaN = NaN"
| "ideal_plus (Fin x) (Fin y) = fin (x + y)"
| "ideal_plus PosInf NegInf = NaN"
| "ideal_plus NegInf PosInf = NaN"
| "ideal_plus PosInf y = PosInf"
| "ideal_plus NegInf y = NegInf"
| "ideal_plus x PosInf = PosInf"
| "ideal_plus x NegInf = NegInf"

definition whole :: "real \<Rightarrow> bool" where
  "whole e = (e = real_of_int \<lfloor>e\<rfloor>)"

definition ideal_pow :: "jsnum \<Rightarrow> jsnum \<Rightarrow> jsnum" where
  "ideal_pow x y =
     (case y of
        NaN \<Rightarrow> NaN
      | Fin e \<Rightarrow>
          if e = 0 then Fin 1
          else (case x of
                  NaN \<Rightarrow> NaN
                | Fin b \<Rightarrow>
                    if whole e then (if b = 0 \<and> e < 0 then PosInf else fin (b powi \<lfloor>e\<rfloor>))
                    else if b < 0 then NaN
                    else if b = 0 then (if e > 0 then Fin 0 else PosInf)
                    else fin (b powr e)
                | PosInf \<Rightarrow> if e > 0 then PosInf else Fin 0
                | NegInf \<Rightarrow>
                    if e < 0 then Fin 0
                    else if whole e \<and> odd \<lfloor>e\<rfloor> then NegInf else PosInf)
      | PosInf \<Rightarrow>
          (case x of
             NaN \<Rightarrow> NaN
           | Fin b \<Rightarrow> if \<bar>b\<bar> > 1 then PosInf else if \<bar>b\<bar> < 1 then Fin 0 else NaN
           | PosInf \<Rightarrow> PosInf
           | NegInf \<Rightarrow> PosInf)
      | NegInf \<Rightarrow>
          (case x of
             NaN \<Rightarrow> NaN
           | Fin b \<Rightarrow> if \<bar>b\<bar> > 1 then Fin 0 else if \<bar>b\<bar> < 1 then PosInf else NaN
           | PosInf \<Rightarrow> Fin 0
           | NegInf \<Rightarrow> Fin 0))"

fun ideal_timer :: "jsnum \<Rightarrow> real" where
  "ideal_timer (Fin ms) = max ms 0"
| "ideal_timer x = 0"

definition ideal_host :: host where
  "ideal_host =
     \<lparr>js_times = ideal_times, js_plus = ideal_plus, js_pow = ideal_pow, timer = ideal_timer\<rparr>"

definition env_at :: "real \<Rightarrow> unit env" where
  "env_at t =
     \<lparr>now = t, rng = (\<lambda>n. 0), drawn = 0, ext = (), calls = 0, arith = ideal_host\<rparr>"

definition trip_at :: "int \<Rightarrow> breaker_options" where
  "trip_at n = \<lparr>failureThreshold = n, timeout = 60000, monitorWindow = 10000\<rparr>"

definition policy :: "int \<Rightarrow> real \<Rightarrow> string retry_options" where
  "policy n factor =
     \<lparr>maxAttempts = n, baseDelay = Fin 1000, maxDelay = Fin 30000,
      backoffFactor = Fin factor, jitter = False, retryCondition = (\<lambda>error. True)\<rparr>"

text \<open>A policy whose powers overflow: no base delay and a factor of ten thousand million.\<close>

definition overflowing :: "string retry_options" where
  "overflowing = (policy 40 10000000000)\<lparr>baseDelay := Fin 0\<rparr>"

text \<open>A breaker with threshold 1 after one failed call at time 1000.\<close>

definition tripped :: "(unit, string, unit) circuit_breaker" where
  "tripped = fst (snd (CircuitBreaker_execute (new_breaker always_fail (trip_at 1)) (env_at 1000)))"

text \<open>
  A breaker with threshold 2 after two failed calls, the first at time 1000 and the
  second at time 1000000.
\<close>

definition failed_twice :: "(unit, string, unit) circuit_breaker" where
  "failed_twice =
     fst (snd (CircuitBreaker_execute
       (fst (snd (CircuitBreaker_execute (new_breaker always_fail (trip_at 2)) (env_at 1000))))
       (env_at 1000000)))"

text \<open>A healthy dependency: every call resolves ten milliseconds later.\<close>

definition always_ok :: "(unit, string, unit) operation" where
  "always_ok s t = (Inr (), s, t + 10)"

text \<open>A CLOSED breaker with one failure counted and two old successes on record.\<close>

definition one_failure :: "(unit, string, unit) circuit_breaker" where
  "one_failure = (new_breaker always_ok (trip_at 2))\<lparr>failures := 1, successes := [5, 995]\<rparr>"

text \<open>An object literal: a row with the given identity and properties.\<close>

definition row :: "string \<Rightarrow> (string \<times> jsval) list \<Rightarrow> product" where
  "row i kvs = \<lparr>id' = i, props = (\<lambda>k. case map_of kvs k of None \<Rightarrow> Undefined | Some v \<Rightarrow> v)\<rparr>"

text \<open>
  The product of the unit test "validates numeric fields" of the guide:
  \<^verbatim>\<open>{ name: 'Test', price: -1 }\<close>.
\<close>

definition negative_price :: product where
  "negative_price = row ''manual_1'' [(''name'', Str ''Test''), (''price'', Num (- 1))]"

text \<open>A row as \<^verbatim>\<open>addEmptyProduct\<close> makes it, and the same row once it is filled in.\<close>

definition empty_row :: product where
  "empty_row =
     row ''manual_1'' [(''name'', Str []), (''price'', Num 0), (''code'', Str []),
                       (''category'', Str []), (''stock'', Num 0)]"

definition filled_row :: product where
  "filled_row =
     row ''manual_1'' [(''name'', Str ''Widget''), (''price'', Num 10), (''code'', Str []),
                       (''category'', Str ''Tools''), (''stock'', Num 0)]"

definition form_with :: "product list \<Rightarrow> form_state" where
  "form_with ps =
     \<lparr>formFields = formFields0, manualProducts = ps, validationErrors = [], creating = False,
      creationResults = [], createdCount = 0, totalToCreate = 0, showPasswords = [],
      productIdCounter = length ps\<rparr>"


text \<open>A server that accepts every row.\<close>

definition accepting :: "unit backend" where
  "accepting n body = (Response True 201 None, n)"

definition net0 :: "unit net" where
  "net0 = \<lparr>server = (), posted = []\<rparr>"

definition second_row :: product where
  "second_row =
     row ''manual_2'' [(''name'', Str ''Gadget''), (''price'', Num 5), (''code'', Str ''GD-1''),
                       (''category'', Str ''Tools''), (''stock'', Num 3)]"

text \<open>A server that answers 500 to the first row it gets and accepts the rows after it.\<close>

definition first_fails :: "nat backend" where
  "first_fails n body = (if n = 0 then Response False 500 None else Response True 201 None, n + 1)"

definition net1 :: "nat net" where
  "net1 = \<lparr>server = 0, posted = []\<rparr>"

text \<open>A user who does nothing while the requests are in flight.\<close>

definition idle :: "'n user" where
  "idle n = \<lparr>act = (\<lambda>st. st), edit = (\<lambda>p. p)\<rparr>"

text \<open>A user who removes the last row of the form during every wait.\<close>

definition removes_last :: "'n user" where
  "removes_last n =
     \<lparr>act = (\<lambda>st. if manualProducts st = [] then st
                   else removeProduct (length (manualProducts st) - 1) st),
      edit = (\<lambda>p. p)\<rparr>"


section \<open>Circuit breaker: properties\<close>

lemma invoke_calls: "calls (snd (invoke f w)) = calls w + 1"
  by (simp add: invoke_def split: prod.splits)

lemma closed_invariant:
  "reachable b \<Longrightarrow> state b = CLOSED \<Longrightarrow>
     failures b = 0 \<or> (0 \<le> failures b \<and> failures b < failureThreshold (options b))"
proof (induction rule: reachable.induct)
  case (fresh f opts)
  then show ?case by (simp add: new_breaker_def)
next
  case (after_execute b w)
  then show ?case
    by (auto simp: CircuitBreaker_execute_def onSuccess_def onFailure_def Let_def
          split: prod.splits sum.splits if_splits)
next
  case (after_reset b)
  then show ?case by (simp add: CircuitBreaker_reset_def)
qed

lemma execute_from_closed:
  assumes "state b = CLOSED"
  shows "CircuitBreaker_execute b w =
           (case invoke (fn b) w of
              (Inr result, w') \<Rightarrow> (Inr result, onSuccess b w', w')
            | (Inl err, w') \<Rightarrow> (Inl (Raised err), onFailure b w', w'))"
  using assms by (simp add: CircuitBreaker_execute_def)

lemma execute_fast_fail:
  assumes "state b = OPEN"
    and "\<forall>t. lastFailureTime b = Some t \<longrightarrow> now w - t \<le> timeout (options b)"
  shows "CircuitBreaker_execute b w = (Inl circuit_open_error, b, w)"
  using assms
  by (auto simp: CircuitBreaker_execute_def shouldAttemptReset_def split: option.splits)

text \<open>
  Claim C2. For a breaker reached from a fresh (CLOSED) one by any sequence of calls:
  a call made in CLOSED leaves the breaker OPEN exactly when the wrapped function failed
  and the failure counter has reached \<open>failureThreshold\<close> (for a threshold of at least 1:
  exactly when the counter equals it); and a call made in OPEN before \<open>timeout\<close> has
  elapsed since \<open>lastFailureTime\<close> leaves the breaker as it is, OPEN, without a trial
  call of the wrapped function.
\<close>

theorem breaker_opens_at_threshold_and_stays_open:
  assumes "reachable b"
    and "CircuitBreaker_execute b w = (r, b', w')"
  shows "(state b = CLOSED \<longrightarrow>
            (state b' = OPEN \<longleftrightarrow> isl r \<and> failures b' \<ge> failureThreshold (options b)))
       \<and> (state b = CLOSED \<and> 1 \<le> failureThreshold (options b) \<longrightarrow>
            (state b' = OPEN \<longleftrightarrow> isl r \<and> failures b' = failureThreshold (options b)))
       \<and> (state b = OPEN
            \<and> (\<forall>t. lastFailureTime b = Some t \<longrightarrow> now w - t \<le> timeout (options b)) \<longrightarrow>
            state b' = OPEN \<and> b' = b \<and> calls w' = calls w)"
proof -
  have closed_ge: "state b' = OPEN \<longleftrightarrow> isl r \<and> failures b' \<ge> failureThreshold (options b)"
    if c: "state b = CLOSED"
    using assms(2) c
    by (auto simp: execute_from_closed onSuccess_def onFailure_def Let_def
          split: prod.splits sum.splits if_splits)
  have closed_eq: "state b' = OPEN \<longleftrightarrow> isl r \<and> failures b' = failureThreshold (options b)"
    if c: "state b = CLOSED" and th: "1 \<le> failureThreshold (options b)"
  proof -
    from closed_invariant [OF assms(1) c]
    have "failures b = 0 \<or> (0 \<le> failures b \<and> failures b < failureThreshold (options b))" .
    with assms(2) c th show ?thesis
      by (auto simp: execute_from_closed onSuccess_def onFailure_def Let_def
            split: prod.splits sum.splits if_splits)
  qed
  have opened: "state b' = OPEN \<and> b' = b \<and> calls w' = calls w"
    if o: "state b = OPEN"
      and t: "\<forall>t. lastFailureTime b = Some t \<longrightarrow> now w - t \<le> timeout (options b)"
    using execute_fast_fail [OF o t] assms(2) o by simp
  from closed_ge closed_eq opened show ?thesis by blast
qed

text \<open>
  Claim C3. Whenever the breaker is OPEN and the timeout has not elapsed since the last
  failure, \<open>execute\<close> fails at once with the error "Circuit breaker is OPEN", the wrapped
  function is not invoked (the environment, with its call counter and the state of the
  dependency, is untouched) and the breaker, with its failure counter, is unchanged.
\<close>

theorem execute_open_fast_fail:
  assumes "state b = OPEN"
    and "\<forall>t. lastFailureTime b = Some t \<longrightarrow> now w - t \<le> timeout (options b)"
  shows "fst (CircuitBreaker_execute b w) = Inl (JsError ''Circuit breaker is OPEN'')
       \<and> snd (snd (CircuitBreaker_execute b w)) = w
       \<and> calls (snd (snd (CircuitBreaker_execute b w))) = calls w
       \<and> failures (fst (snd (CircuitBreaker_execute b w))) = failures b
       \<and> fst (snd (CircuitBreaker_execute b w)) = b"
  using execute_fast_fail [OF assms] by (simp add: circuit_open_error_def)

lemma first_failure_trips:
  "CircuitBreaker_execute (new_breaker always_fail (trip_at 1)) (env_at 1000) =
     (Inl (Raised ''boom''),
      \<lparr>fn = always_fail, options = trip_at 1, state = OPEN, failures = 1,
       lastFailureTime = Some 1010, successes = []\<rparr>,
      \<lparr>now = 1010, rng = (\<lambda>n. 0), drawn = 0, ext = (), calls = 1,
        arith = ideal_host\<rparr>)"
  by (simp add: CircuitBreaker_execute_def new_breaker_def invoke_def always_fail_def
        env_at_def trip_at_def onFailure_def Let_def)

lemma tripped_eq:
  "tripped = \<lparr>fn = always_fail, options = trip_at 1, state = OPEN, failures = 1,
              lastFailureTime = Some 1010, successes = []\<rparr>"
  by (simp add: tripped_def first_failure_trips)

theorem breaker_opens_at_threshold_and_stays_open_witness:
  "reachable (new_breaker always_fail (trip_at 1))
   \<and> state (new_breaker always_fail (trip_at 1)) = CLOSED
   \<and> 1 \<le> failureThreshold (options (new_breaker always_fail (trip_at 1)))
   \<and> state tripped = OPEN
   \<and> failures tripped = failureThreshold (options (new_breaker always_fail (trip_at 1)))
   \<and> reachable tripped
   \<and> lastFailureTime tripped = Some 1010
   \<and> now (env_at 2000) - 1010 \<le> timeout (options tripped)
   \<and> fst (snd (CircuitBreaker_execute tripped (env_at 2000))) = tripped
   \<and> calls (snd (snd (CircuitBreaker_execute tripped (env_at 2000)))) = calls (env_at 2000)"
proof -
  let ?b = "new_breaker always_fail (trip_at 1) :: (unit, string, unit) circuit_breaker"
  obtain r b' w' where e1: "CircuitBreaker_execute ?b (env_at 1000) = (r, b', w')"
    by (metis prod_cases3)
  have b': "b' = tripped" using e1 by (simp add: tripped_def)
  have r: "isl r" using e1 by (auto simp: first_failure_trips)
  have r1: "reachable ?b" by (rule reachable.fresh)
  have r2: "reachable tripped" unfolding tripped_def by (rule reachable.after_execute [OF r1])
  obtain r2' b2 w2 where e2: "CircuitBreaker_execute tripped (env_at 2000) = (r2', b2, w2)"
    by (metis prod_cases3)
  have c1: "state ?b = CLOSED" by (simp add: new_breaker_def)
  have th: "1 \<le> failureThreshold (options ?b)" by (simp add: new_breaker_def trip_at_def)
  have last: "lastFailureTime tripped = Some 1010" by (simp add: tripped_eq)
  have le: "now (env_at 2000) - 1010 \<le> timeout (options tripped)"
    by (simp add: tripped_eq env_at_def trip_at_def)
  have not_elapsed:
    "\<forall>t. lastFailureTime tripped = Some t \<longrightarrow> now (env_at 2000) - t \<le> timeout (options tripped)"
    using last le by simp
  have open2: "state tripped = OPEN" by (simp add: tripped_eq)
  from breaker_opens_at_threshold_and_stays_open [OF r1 e1] c1 th
  have "state b' = OPEN \<longleftrightarrow> isl r \<and> failures b' = failureThreshold (options ?b)"
    by blast
  with r b' open2 have f: "failures tripped = failureThreshold (options ?b)" by simp
  from breaker_opens_at_threshold_and_stays_open [OF r2 e2] open2 not_elapsed
  have "b2 = tripped \<and> calls w2 = calls (env_at 2000)" by blast
  with e2 have stay: "fst (snd (CircuitBreaker_execute tripped (env_at 2000))) = tripped"
    and nocall: "calls (snd (snd (CircuitBreaker_execute tripped (env_at 2000)))) = calls (env_at 2000)"
    by simp_all
  from r1 c1 th open2 f r2 last le stay nocall show ?thesis by (intro conjI)
qed

theorem execute_open_fast_fail_witness:
  "state tripped = OPEN
   \<and> lastFailureTime tripped = Some 1010
   \<and> now (env_at 2000) - 1010 \<le> timeout (options tripped)
   \<and> fst (CircuitBreaker_execute tripped (env_at 2000)) = Inl (JsError ''Circuit breaker is OPEN'')
   \<and> calls (snd (snd (CircuitBreaker_execute tripped (env_at 2000)))) = 0
   \<and> failures (fst (snd (CircuitBreaker_execute tripped (env_at 2000)))) = 1"
proof -
  have o: "state tripped = OPEN" by (simp add: tripped_eq)
  have t: "\<forall>t. lastFailureTime tripped = Some t \<longrightarrow> now (env_at 2000) - t \<le> timeout (options tripped)"
    by (simp add: tripped_eq env_at_def trip_at_def)
  from execute_open_fast_fail [OF o t] o show ?thesis
    by (simp add: tripped_eq env_at_def trip_at_def)
qed

text \<open>
  Claim C9, as the code has it. A successful call in CLOSED resets the failure counter
  to 0 and leaves the breaker CLOSED; \<open>monitorWindow\<close> only prunes the recorded
  timestamps of successes (every timestamp kept is younger than the window). The
  window and the recorded successes have no part in tripping: the outcome, the state,
  the failure counter and \<open>lastFailureTime\<close> after a call are the same whatever the
  window and the recorded successes are.
\<close>

theorem success_resets_and_window_prunes_successes_only:
  "(state b = CLOSED \<and> \<not> isl (fst (CircuitBreaker_execute b w)) \<longrightarrow>
      failures (fst (snd (CircuitBreaker_execute b w))) = 0
      \<and> state (fst (snd (CircuitBreaker_execute b w))) = CLOSED
      \<and> (\<forall>time \<in> set (successes (fst (snd (CircuitBreaker_execute b w)))).
            now (snd (snd (CircuitBreaker_execute b w))) - monitorWindow (options b) < time))
   \<and> (let b2 = b\<lparr>options := (options b)\<lparr>monitorWindow := m\<rparr>, successes := ss\<rparr>
      in fst (CircuitBreaker_execute b2 w) = fst (CircuitBreaker_execute b w)
         \<and> state (fst (snd (CircuitBreaker_execute b2 w))) = state (fst (snd (CircuitBreaker_execute b w)))
         \<and> failures (fst (snd (CircuitBreaker_execute b2 w))) = failures (fst (snd (CircuitBreaker_execute b w)))
         \<and> lastFailureTime (fst (snd (CircuitBreaker_execute b2 w)))
             = lastFailureTime (fst (snd (CircuitBreaker_execute b w))))"
  by (auto simp: CircuitBreaker_execute_def onSuccess_def onFailure_def Let_def
        shouldAttemptReset_def split: prod.splits sum.splits option.splits)

theorem success_resets_and_window_prunes_successes_only_witness:
  "state one_failure = CLOSED
   \<and> \<not> isl (fst (CircuitBreaker_execute one_failure (env_at 20000)))
   \<and> failures one_failure = 1
   \<and> failures (fst (snd (CircuitBreaker_execute one_failure (env_at 20000)))) = 0
   \<and> successes (fst (snd (CircuitBreaker_execute one_failure (env_at 20000)))) = [20010]
   \<and> now (snd (snd (CircuitBreaker_execute one_failure (env_at 20000))))
         - monitorWindow (options one_failure) < 20010"
proof -
  have e: "CircuitBreaker_execute one_failure (env_at 20000) =
      (Inr (),
       \<lparr>fn = always_ok, options = trip_at 2, state = CLOSED, failures = 0,
        lastFailureTime = None, successes = [20010]\<rparr>,
       \<lparr>now = 20010, rng = (\<lambda>n. 0), drawn = 0, ext = (), calls = 1,
        arith = ideal_host\<rparr>)"
    by (simp add: CircuitBreaker_execute_def one_failure_def new_breaker_def invoke_def
          always_ok_def env_at_def trip_at_def onSuccess_def Let_def)
  have c: "state one_failure = CLOSED \<and> \<not> isl (fst (CircuitBreaker_execute one_failure (env_at 20000)))"
    by (simp add: e) (simp add: one_failure_def new_breaker_def)
  from success_resets_and_window_prunes_successes_only
         [where b = one_failure and w = "env_at 20000" and m = 10000 and ss = "[]"] c
  show ?thesis
    by (simp add: e) (simp add: one_failure_def new_breaker_def trip_at_def)
qed

text \<open>
  Claim C9 as stated fails: with \<open>failureThreshold = 2\<close> and \<open>monitorWindow = 10000\<close>,
  a failure at time 1010 and a second one at time 1000010, far more than the window
  later, trip the breaker.
\<close>

theorem old_failure_trips_breaker_counterexample:
  "monitorWindow (options failed_twice) < 1000010 - 1010
   \<and> lastFailureTime
        (fst (snd (CircuitBreaker_execute (new_breaker always_fail (trip_at 2)) (env_at 1000))))
       = Some 1010
   \<and> lastFailureTime failed_twice = Some 1000010
   \<and> failures failed_twice = 2
   \<and> state failed_twice = OPEN"
  by (simp add: failed_twice_def CircuitBreaker_execute_def new_breaker_def invoke_def
        always_fail_def env_at_def trip_at_def onFailure_def Let_def)

section \<open>Retry manager: properties\<close>

lemma calculateDelay_calls: "calls (snd (calculateDelay opts attempt w)) = calls w"
  by (simp add: calculateDelay_def random_def Let_def split: prod.splits)

lemma sleep_calls: "calls (sleep ms w) = calls w"
  by (simp add: sleep_def)

lemma retry_loop_calls:
  "calls w \<le> calls (snd (retry_loop opts f attempt lastError w))
   \<and> int (calls (snd (retry_loop opts f attempt lastError w)))
        \<le> int (calls w) + max 0 (maxAttempts opts + 1 - attempt)
   \<and> (attempt \<le> maxAttempts opts \<longrightarrow>
        calls w + 1 \<le> calls (snd (retry_loop opts f attempt lastError w)))"
proof (induction opts f attempt lastError w rule: retry_loop.induct)
  case (1 opts f attempt lastError w)
  show ?case
  proof (cases "attempt \<le> maxAttempts opts")
    case False
    then show ?thesis by (simp add: retry_loop.simps [of opts f attempt lastError w])
  next
    case le: True
    obtain r w' where inv: "invoke f w = (r, w')" by (cases "invoke f w")
    have cw': "calls w' = calls w + 1" using invoke_calls [of f w] inv by simp
    show ?thesis
    proof (cases r)
      case (Inr result)
      with le inv cw' show ?thesis
        by (simp add: retry_loop.simps [of opts f attempt lastError w])
    next
      case (Inl err)
      show ?thesis
      proof (cases "attempt = maxAttempts opts \<or> \<not> retryCondition opts err")
        case True
        with le inv cw' Inl show ?thesis
          by (auto simp: retry_loop.simps [of opts f attempt lastError w])
      next
        case False
        obtain delay w'' where cd: "calculateDelay opts attempt w' = (delay, w'')"
          by (cases "calculateDelay opts attempt w'")
        have cw'': "calls (sleep delay w'') = calls w + 1"
          using calculateDelay_calls [of opts attempt w'] cd cw' by (simp add: sleep_calls)
        have step: "retry_loop opts f attempt lastError w
                      = retry_loop opts f (attempt + 1) (Some err) (sleep delay w'')"
          using le inv Inl False cd
          by (simp add: retry_loop.simps [of opts f attempt lastError w])
        from "1.IH" [OF le inv [symmetric] Inl False cd [symmetric]] cw'' le False
        show ?thesis unfolding step by auto
      qed
    qed
  qed
qed

text \<open>
  Claim C4. For every retry policy with \<open>maxAttempts \<ge> 1\<close>, every wrapped function
  and every retry predicate, one call of \<open>execute\<close> invokes the wrapped function at
  least once and at most \<open>maxAttempts\<close> times.
\<close>

theorem retry_invocations_bounded:
  assumes "1 \<le> maxAttempts opts"
  shows "calls w + 1 \<le> calls (snd (RetryManager_execute opts f w))
       \<and> int (calls (snd (RetryManager_execute opts f w))) \<le> int (calls w) + maxAttempts opts"
  using assms retry_loop_calls [of w opts f 1 None]
  by (simp add: RetryManager_execute_def)

lemma fin_Fin: "- max_double \<le> r \<Longrightarrow> r \<le> max_double \<Longrightarrow> fin r = Fin r"
  by (simp add: fin_def)

lemma max_double_ge: "(2 :: real) ^ 60 \<le> max_double"
proof -
  have "(2 :: real) ^ 60 \<le> 2 ^ 971" by (rule power_increasing) simp_all
  also have "\<dots> \<le> (2 ^ 53 - 1) * 2 ^ 971" by simp
  finally show ?thesis by (simp only: max_double_def)
qed

lemma fin_small: "\<bar>r\<bar> \<le> 2 ^ 60 \<Longrightarrow> fin r = Fin r"
  using max_double_ge by (intro fin_Fin) (simp_all add: abs_le_iff)

lemma ideal_pow_nat:
  "ideal_pow (Fin b) (Fin (real_of_int (int n))) = fin (b ^ n)"
  by (cases "n = 0") (simp_all add: ideal_pow_def whole_def fin_small)

lemma ideal_delay:
  "fst (calculateDelay (policy n k) (int (Suc m)) (env_at t))
     = js_min (ideal_times (Fin 1000) (fin (k ^ m))) (Fin 30000)"
proof -
  have "real_of_int (int (Suc m) - 1) = real_of_int (int m)" by simp
  then show ?thesis
    by (simp add: calculateDelay_def policy_def env_at_def ideal_host_def ideal_pow_nat
          del: of_int_of_nat_eq)
qed

lemma three_failures:
  "RetryManager_execute (policy 3 2) always_fail (env_at 0) =
     (Inl (Raised ''boom''), \<lparr>now = 3030, rng = (\<lambda>n. 0), drawn = 0, ext = (), calls = 3,
        arith = ideal_host\<rparr>)"
  unfolding RetryManager_execute_def
  apply (subst retry_loop.simps)
  apply (simp add: policy_def always_fail_def env_at_def invoke_def calculateDelay_def sleep_def
           ideal_host_def ideal_pow_def whole_def fin_small js_min_def)
  apply (subst retry_loop.simps)
  apply (simp add: policy_def always_fail_def env_at_def invoke_def calculateDelay_def sleep_def
           ideal_host_def ideal_pow_def whole_def fin_small js_min_def)
  apply (subst retry_loop.simps)
  apply (simp add: policy_def always_fail_def env_at_def invoke_def calculateDelay_def sleep_def
           ideal_host_def ideal_pow_def whole_def fin_small js_min_def)
  done

lemma one_failure_only:
  "RetryManager_execute (policy 1 2) always_fail (env_at 0) =
     (Inl (Raised ''boom''), \<lparr>now = 10, rng = (\<lambda>n. 0), drawn = 0, ext = (), calls = 1,
        arith = ideal_host\<rparr>)"
  unfolding RetryManager_execute_def
  apply (subst retry_loop.simps)
  apply (simp add: policy_def always_fail_def env_at_def invoke_def)
  done

theorem retry_invocations_bounded_witness:
  "1 \<le> maxAttempts (policy 3 2)
   \<and> calls (snd (RetryManager_execute (policy 3 2) always_fail (env_at 0))) = 3
   \<and> calls (env_at 0) = 0
   \<and> maxAttempts (policy 3 2) = 3"
proof -
  have m: "1 \<le> maxAttempts (policy 3 2)" by (simp add: policy_def)
  from retry_invocations_bounded [OF m, of "env_at 0" always_fail] m
  show ?thesis by (simp add: three_failures) (simp add: policy_def env_at_def)
qed

text \<open>
  Claim C8, as the code has it. Whenever an attempt fails and either it is the last
  attempt allowed or the retry predicate rejects the error, \<open>execute\<close> fails with that
  very error, as the wrapped function threw it: nothing is added to it, and the
  attempt count is not attached.
\<close>

theorem retry_rethrows_final_error_unchanged:
  assumes "attempt \<le> maxAttempts opts"
    and "invoke f w = (Inl err, w')"
    and "attempt = maxAttempts opts \<or> \<not> retryCondition opts err"
  shows "retry_loop opts f attempt lastError w = (Inl (Raised err), w')"
  using assms by (auto simp: retry_loop.simps [of opts f attempt lastError w])

theorem retry_rethrows_final_error_unchanged_witness:
  "(1::int) \<le> maxAttempts (policy 1 2)
   \<and> invoke always_fail (env_at 0)
       = (Inl ''boom'', \<lparr>now = 10, rng = (\<lambda>n. 0), drawn = 0, ext = (), calls = 1,
        arith = ideal_host\<rparr>)
   \<and> 1 = maxAttempts (policy 1 2)
   \<and> retry_loop (policy 1 2) always_fail 1 None (env_at 0)
       = (Inl (Raised ''boom''), \<lparr>now = 10, rng = (\<lambda>n. 0), drawn = 0, ext = (), calls = 1,
        arith = ideal_host\<rparr>)"
proof -
  have m: "(1::int) \<le> maxAttempts (policy 1 2)" and l: "1 = maxAttempts (policy 1 2)"
    by (simp_all add: policy_def)
  have i: "invoke always_fail (env_at 0)
       = (Inl ''boom'', \<lparr>now = 10, rng = (\<lambda>n. 0), drawn = 0, ext = (), calls = 1,
        arith = ideal_host\<rparr>)"
    by (simp add: invoke_def always_fail_def env_at_def)
  from retry_rethrows_final_error_unchanged [OF m i disjI1 [OF l], of None] m i l
  show ?thesis by simp
qed

text \<open>
  Claim C8 as stated fails: the error the caller receives does not tell how many
  attempts were made. A function that always throws \<open>''boom''\<close> makes \<open>execute\<close> fail
  with the same value \<open>''boom''\<close> after one attempt (\<open>maxAttempts = 1\<close>) and after
  three (\<open>maxAttempts = 3\<close>).
\<close>

theorem retry_error_without_attempt_count_counterexample:
  "fst (RetryManager_execute (policy 1 2) always_fail (env_at 0)) = Inl (Raised ''boom'')
   \<and> calls (snd (RetryManager_execute (policy 1 2) always_fail (env_at 0))) = 1
   \<and> fst (RetryManager_execute (policy 3 2) always_fail (env_at 0)) = Inl (Raised ''boom'')
   \<and> calls (snd (RetryManager_execute (policy 3 2) always_fail (env_at 0))) = 3"
  by (simp add: three_failures one_failure_only)

lemma js_min_le: "x \<noteq> NaN \<Longrightarrow> m \<noteq> NaN \<Longrightarrow> js_leq (js_min x m) m"
  by (cases x; cases m) (simp_all add: js_min_def)

lemma js_min_mono:
  "js_leq x y \<Longrightarrow> m \<noteq> NaN \<Longrightarrow> js_leq (js_min x m) (js_min y m)"
  by (cases x; cases y; cases m) (simp_all add: js_min_def)

text \<open>
  Claim C7, as the code has it. With jitter disabled, for every policy and every
  attempt \<open>a \<ge> 1\<close>, the delay is \<^verbatim>\<open>Math.min(baseDelay * Math.pow(backoffFactor, a - 1),
  maxDelay)\<close> in the arithmetic of the host, and the random source is not read. The
  delay is at most \<open>maxDelay\<close> when neither the product nor \<open>maxDelay\<close> is \<^verbatim>\<open>NaN\<close>.
  From an attempt to a later one the delay does not decrease when neither of the two
  products nor \<open>maxDelay\<close> is \<^verbatim>\<open>NaN\<close> and the arithmetic of the host is monotone
  for the base delay and the backoff factor of the policy.
\<close>

theorem backoff_delay_formula_and_bounds:
  assumes "\<not> jitter opts" and "1 \<le> a"
  shows "fst (calculateDelay opts a w)
           = js_min (js_times (arith w) (baseDelay opts)
                       (js_pow (arith w) (backoffFactor opts) (Fin (real_of_int (a - 1)))))
                    (maxDelay opts)
       \<and> snd (calculateDelay opts a w) = w
       \<and> (js_times (arith w) (baseDelay opts)
             (js_pow (arith w) (backoffFactor opts) (Fin (real_of_int (a - 1)))) \<noteq> NaN
           \<and> maxDelay opts \<noteq> NaN \<longrightarrow>
            js_leq (fst (calculateDelay opts a w)) (maxDelay opts))
       \<and> (a \<le> a' \<and> monotone_arith (arith w) (baseDelay opts) (backoffFactor opts)
           \<and> js_times (arith w) (baseDelay opts)
                (js_pow (arith w) (backoffFactor opts) (Fin (real_of_int (a - 1)))) \<noteq> NaN
           \<and> js_times (arith w) (baseDelay opts)
                (js_pow (arith w) (backoffFactor opts) (Fin (real_of_int (a' - 1)))) \<noteq> NaN
           \<and> maxDelay opts \<noteq> NaN \<longrightarrow>
            js_leq (fst (calculateDelay opts a w)) (fst (calculateDelay opts a' w)))"
proof -
  let ?p = "\<lambda>n. js_times (arith w) (baseDelay opts)
                  (js_pow (arith w) (backoffFactor opts) (Fin (real_of_int (n - 1))))"
  have formula: "fst (calculateDelay opts n w) = js_min (?p n) (maxDelay opts)" for n
    using assms(1) by (simp add: calculateDelay_def Let_def)
  have same: "snd (calculateDelay opts a w) = w"
    using assms(1) by (simp add: calculateDelay_def Let_def)
  have bound: "js_leq (fst (calculateDelay opts a w)) (maxDelay opts)"
    if "?p a \<noteq> NaN" and "maxDelay opts \<noteq> NaN"
    unfolding formula using that by (rule js_min_le)
  have mono: "js_leq (fst (calculateDelay opts a w)) (fst (calculateDelay opts a' w))"
    if le: "a \<le> a'"
      and m: "monotone_arith (arith w) (baseDelay opts) (backoffFactor opts)"
      and pa: "?p a \<noteq> NaN" and pa': "?p a' \<noteq> NaN" and md: "maxDelay opts \<noteq> NaN"
  proof -
    from assms(2) le have "0 \<le> a - 1 \<and> a - 1 \<le> a' - 1" by simp
    with m have "js_leq (js_pow (arith w) (backoffFactor opts) (Fin (real_of_int (a - 1))))
                        (js_pow (arith w) (backoffFactor opts) (Fin (real_of_int (a' - 1))))"
      unfolding monotone_arith_def by blast
    with m pa pa' have "js_leq (?p a) (?p a')"
      unfolding monotone_arith_def by blast
    then show ?thesis unfolding formula using md by (rule js_min_mono)
  qed
  from formula [of a] same bound mono show ?thesis by blast
qed

lemma max_double_pos: "0 < max_double"
  by (simp add: max_double_def)

lemma fin_mono: "x \<le> y \<Longrightarrow> js_leq (fin x) (fin y)"
  using max_double_pos by (auto simp: fin_def)

lemma fin_not_NaN: "fin x \<noteq> NaN"
  by (simp add: fin_def)


lemma ideal_times_mono:
  assumes "0 \<le> b" "js_leq x y" "ideal_times (Fin b) x \<noteq> NaN" "ideal_times (Fin b) y \<noteq> NaN"
  shows "js_leq (ideal_times (Fin b) x) (ideal_times (Fin b) y)"
proof (cases x)
  case NaN with assms show ?thesis by simp
next
  case NegInf
  with assms show ?thesis by (cases y) (auto simp: fin_def split: if_splits)
next
  case PosInf
  with assms show ?thesis by (cases y) (auto simp: fin_def split: if_splits)
next
  case fx: (Fin u)
  show ?thesis
  proof (cases y)
    case (Fin v)
    with fx assms have "b * u \<le> b * v" by (simp add: mult_left_mono)
    with fx Fin show ?thesis by (simp add: fin_mono)
  next
    case PosInf
    with fx assms show ?thesis by (cases "fin (b * u)") (auto split: if_splits)
  qed (use fx assms in auto)
qed

text \<open>
  The arithmetic of the examples is monotone for a base delay that is not negative
  and a backoff factor of at least 1.
\<close>

lemma ideal_host_monotone:
  assumes "0 \<le> b" and "1 \<le> k"
  shows "monotone_arith ideal_host (Fin b) (Fin k)"
  unfolding monotone_arith_def
proof (intro conjI allI impI)
  fix m n :: int
  assume mn: "0 \<le> m \<and> m \<le> n"
  then have m: "real_of_int m = real_of_int (int (nat m))"
    and n: "real_of_int n = real_of_int (int (nat n))" by simp_all
  from mn have "nat m \<le> nat n" by arith
  from this assms(2) have "k ^ nat m \<le> k ^ nat n" by (rule power_increasing)
  then have "js_leq (fin (k ^ nat m)) (fin (k ^ nat n))" by (rule fin_mono)
  then have "js_leq (ideal_pow (Fin k) (Fin (real_of_int m))) (ideal_pow (Fin k) (Fin (real_of_int n)))"
    by (simp only: m n ideal_pow_nat)
  then show "js_leq (js_pow ideal_host (Fin k) (Fin (real_of_int m)))
                    (js_pow ideal_host (Fin k) (Fin (real_of_int n)))"
    by (simp add: ideal_host_def)
next
  fix x y
  assume "js_leq x y \<and> js_times ideal_host (Fin b) x \<noteq> NaN \<and> js_times ideal_host (Fin b) y \<noteq> NaN"
  then have "js_leq x y" and "ideal_times (Fin b) x \<noteq> NaN" and "ideal_times (Fin b) y \<noteq> NaN"
    by (simp_all add: ideal_host_def)
  with assms(1) have "js_leq (ideal_times (Fin b) x) (ideal_times (Fin b) y)"
    by (rule ideal_times_mono)
  then show "js_leq (js_times ideal_host (Fin b) x) (js_times ideal_host (Fin b) y)"
    by (simp add: ideal_host_def)
qed

theorem backoff_delay_formula_and_bounds_witness:
  "\<not> jitter (policy 3 2) \<and> (1::int) \<le> 1 \<and> (1::int) \<le> 6
   \<and> monotone_arith (arith (env_at 0)) (baseDelay (policy 3 2)) (backoffFactor (policy 3 2))
   \<and> maxDelay (policy 3 2) = Fin 30000
   \<and> fst (calculateDelay (policy 3 2) 1 (env_at 0)) = Fin 1000
   \<and> fst (calculateDelay (policy 3 2) 6 (env_at 0)) = Fin 30000
   \<and> js_leq (fst (calculateDelay (policy 3 2) 1 (env_at 0)))
             (fst (calculateDelay (policy 3 2) 6 (env_at 0)))
   \<and> js_leq (fst (calculateDelay (policy 3 2) 6 (env_at 0))) (maxDelay (policy 3 2))"
proof -
  have j: "\<not> jitter (policy 3 2)" by (simp add: policy_def)
  have le: "(1::int) \<le> 1" "(1::int) \<le> 6" "(6::int) \<le> 6" by simp_all
  have m: "monotone_arith (arith (env_at 0)) (baseDelay (policy 3 2)) (backoffFactor (policy 3 2))"
    using ideal_host_monotone [of 1000 2] by (simp add: env_at_def policy_def)
  have md: "maxDelay (policy 3 2) = Fin 30000" by (simp add: policy_def)
  have nn: "maxDelay (policy 3 2) \<noteq> NaN" by (simp add: md)
  have d1: "fst (calculateDelay (policy 3 2) 1 (env_at 0)) = Fin 1000"
    using ideal_delay [of 3 2 0 0] by (simp add: fin_small js_min_def)
  have d6: "fst (calculateDelay (policy 3 2) 6 (env_at 0)) = Fin 30000"
    using ideal_delay [of 3 2 5 0] by (simp add: fin_small js_min_def)
  have p1: "js_times (arith (env_at 0)) (baseDelay (policy 3 2))
              (js_pow (arith (env_at 0)) (backoffFactor (policy 3 2)) (Fin (real_of_int (1 - 1))))
            \<noteq> NaN"
    by (simp add: policy_def env_at_def ideal_host_def ideal_pow_def fin_not_NaN)
  have p6: "js_times (arith (env_at 0)) (baseDelay (policy 3 2))
              (js_pow (arith (env_at 0)) (backoffFactor (policy 3 2)) (Fin (real_of_int (6 - 1))))
            \<noteq> NaN"
    by (simp add: policy_def env_at_def ideal_host_def ideal_pow_def whole_def fin_small)
  from backoff_delay_formula_and_bounds [OF j le(1), of "env_at 0" 6] le(2) m p1 p6 nn
  have mono: "js_leq (fst (calculateDelay (policy 3 2) 1 (env_at 0)))
                     (fst (calculateDelay (policy 3 2) 6 (env_at 0)))"
    by blast
  from backoff_delay_formula_and_bounds [OF j le(2), of "env_at 0" 6] p6 nn
  have bound: "js_leq (fst (calculateDelay (policy 3 2) 6 (env_at 0))) (maxDelay (policy 3 2))"
    by blast
  from j le(1,2) m md d1 d6 mono bound show ?thesis by (intro conjI)
qed

text \<open>
  Claim C7 as stated fails twice. For a policy with \<open>backoffFactor < 1\<close> the delays
  decrease: with \<open>baseDelay = 1000\<close>, \<open>backoffFactor = 1/2\<close> and no jitter, the delay
  after the first attempt is 1000 and the delay after the second is 500. And a delay
  need not be a number at most \<open>maxDelay\<close>: with \<open>baseDelay = 0\<close> and
  \<open>backoffFactor = 10000000000\<close>, \<^verbatim>\<open>Math.pow\<close> overflows at attempt 32, the product of
  0 and the infinity is \<^verbatim>\<open>NaN\<close>, and so is the delay.
\<close>

theorem backoff_delays_decrease_counterexample:
  "\<not> jitter (policy 3 (1/2))
   \<and> fst (calculateDelay (policy 3 (1/2)) 1 (env_at 0)) = Fin 1000
   \<and> fst (calculateDelay (policy 3 (1/2)) 2 (env_at 0)) = Fin 500
   \<and> \<not> js_leq (fst (calculateDelay (policy 3 (1/2)) 1 (env_at 0)))
               (fst (calculateDelay (policy 3 (1/2)) 2 (env_at 0)))
   \<and> \<not> jitter overflowing
   \<and> fst (calculateDelay overflowing 32 (env_at 0)) = NaN
   \<and> \<not> js_leq (fst (calculateDelay overflowing 32 (env_at 0))) (maxDelay overflowing)"
proof -
  have d1: "fst (calculateDelay (policy 3 (1/2)) 1 (env_at 0)) = Fin 1000"
    using ideal_delay [of 3 "1/2" 0 0] by (simp add: fin_small js_min_def)
  have d2: "fst (calculateDelay (policy 3 (1/2)) 2 (env_at 0)) = Fin 500"
    using ideal_delay [of 3 "1/2" 1 0] by (simp add: fin_small js_min_def)
  have e: "real_of_int (int 31) = 31" and e': "real_of_int (32 - 1) = 31" by simp_all
  have "ideal_pow (Fin 10000000000) (Fin (real_of_int (int 31))) = fin (10000000000 ^ 31)"
    by (rule ideal_pow_nat)
  moreover have "fin (10000000000 ^ 31) = PosInf"
    by (simp add: fin_def max_double_def)
  ultimately have over: "ideal_pow (Fin 10000000000) (Fin 31) = PosInf"
    by (simp only: e)
  have d32: "fst (calculateDelay overflowing 32 (env_at 0)) = NaN"
    unfolding calculateDelay_def Let_def e'
    by (simp add: overflowing_def policy_def env_at_def ideal_host_def over js_min_def)
  show ?thesis
    by (simp add: d1 d2 d32) (simp add: policy_def overflowing_def)
qed

section \<open>Validation: properties\<close>

lemma int_to_string_0: "int_to_string 0 = ''0''"
  by (simp add: int_to_string_def digits.simps)

lemma validateProduct_negative_price:
  "validateProduct formFields0 negative_price =
     [(''price'', ''Must be 0 or greater''), (''category'', ''Category is required'')]"
  by (simp add: validateProduct_def formFields0_def validateField_def negative_price_def row_def
        int_to_string_0 trim_def white_space_def)

lemma validateProduct_empty_row:
  "validateProduct formFields0 empty_row =
     [(''name'', ''Name is required''), (''price'', ''Price must be greater than 0''),
      (''category'', ''Category is required'')]"
  by (simp add: validateProduct_def formFields0_def validateField_def empty_row_def row_def
        int_to_string_0 trim_def white_space_def)

lemma validateProduct_filled_row: "validateProduct formFields0 filled_row = []"
  by (simp add: validateProduct_def formFields0_def validateField_def filled_row_def row_def
        int_to_string_0 trim_def white_space_def)
lemma assign_not_Nil: "assign k v l \<noteq> []"
  by (cases l) auto


lemma keys_assign: "set (map fst (assign k v l)) = insert k (set (map fst l))"
  by (induction l) auto

lemma distinct_assign: "distinct (map fst l) \<Longrightarrow> distinct (map fst (assign k v l))"
  by (induction l) (auto simp: keys_assign [simplified] image_iff)




lemma distinct_assign_all:
  "distinct (map fst e) \<Longrightarrow> distinct (map fst (foldl (\<lambda>e m. assign k m e) e ms))"
  by (induction ms arbitrary: e) (auto simp: distinct_assign)

text \<open>
  \<open>validateField\<close> assigns the messages of \<open>field_messages\<close>, one after the other, to
  the key of the field.
\<close>

lemma validateField_messages:
  "validateField field p errors =
     foldl (\<lambda>e m. assign (key field) m e) errors (field_messages field p)"
proof -
  define v where "v = props p (key field)"
  define k where "k = key field"
  define A where "A \<longleftrightarrow> truthy v \<and> k = ''name'' \<and> length_below v 3"
  define B where "B \<longleftrightarrow> truthy v \<and> k = ''code'' \<and> \<not> code_pattern (js_String v)"
  define C where "C \<longleftrightarrow> k = ''price'' \<and> js_le v 0"
  define G where "G \<longleftrightarrow> v \<noteq> Undefined \<and> v \<noteq> Null \<and> v \<noteq> Str []"
  define E where "E \<longleftrightarrow> type' field = ''email'' \<and> truthy v \<and> \<not> email_pattern (js_String v)"
  define R where "R \<longleftrightarrow> required field \<and> blank v"
  have 1: "validateField field p errors =
     (if R then assign k (replace '' *'' [] (label field) @ '' is required'') errors
      else if type' field = ''text'' then
        (let errors1 = (if A then assign k ''Product name must be at least 3 characters'' errors else errors)
         in if B then assign k ''Invalid code format (3-50 chars, alphanumeric only)'' errors1 else errors1)
      else if type' field = ''number'' then
        (if G then
           (let errors1 = (if C then assign k ''Price must be greater than 0'' errors else errors)
            in case min' field of
                 None \<Rightarrow> errors1
               | Some m \<Rightarrow>
                   if js_lt v (real_of_int m)
                   then assign k (''Must be '' @ int_to_string m @ '' or greater'') errors1
                   else errors1)
         else errors)
      else if E then assign k ''Invalid email format'' errors
      else errors)"
    unfolding validateField_def Let_def v_def k_def A_def B_def C_def G_def E_def R_def ..
  have 2: "field_messages field p =
     (if R then [replace '' *'' [] (label field) @ '' is required'']
      else if type' field = ''text'' then
        (if A then [''Product name must be at least 3 characters''] else [])
        @ (if B then [''Invalid code format (3-50 chars, alphanumeric only)''] else [])
      else if type' field = ''number'' then
        (if G then
           (if C then [''Price must be greater than 0''] else [])
           @ (case min' field of
                None \<Rightarrow> []
              | Some m \<Rightarrow>
                  if js_lt v (real_of_int m)
                  then [''Must be '' @ int_to_string m @ '' or greater''] else [])
         else [])
      else if E then [''Invalid email format'']
      else [])"
    unfolding field_messages_def Let_def v_def k_def A_def B_def C_def G_def E_def R_def ..
  show ?thesis
    unfolding 1 2 k_def [symmetric]
    by (cases R; cases A; cases B; cases C; cases G; cases E; cases "min' field")
       (simp_all add: Let_def)
qed




lemma validate_fold_distinct:
  "distinct (map fst e) \<Longrightarrow>
     distinct (map fst (foldl (\<lambda>errors field. validateField field p errors) e fs))"
  by (induction fs arbitrary: e) (auto simp: validateField_messages distinct_assign_all)

text \<open>Every key has at most one message in the result of \<open>validateProduct\<close>.\<close>

lemma validateProduct_one_message_per_field: "distinct (map fst (validateProduct fs p))"
  by (simp add: validateProduct_def validate_fold_distinct)



section \<open>Validating and creating all products: properties\<close>

lemma validate_all_fold_keeps:
  "new \<noteq> [] \<Longrightarrow>
     foldl (\<lambda>new p. if validateProduct fs p \<noteq> []
                    then assign (id' p) (validateProduct fs p) new else new) new ps \<noteq> []"
  by (induction ps arbitrary: new) (auto simp: assign_not_Nil)

lemma validate_all_fold_Nil_iff:
  "foldl (\<lambda>new p. if validateProduct fs p \<noteq> []
                  then assign (id' p) (validateProduct fs p) new else new) new ps = []
     \<longleftrightarrow> new = [] \<and> (\<forall>p \<in> set ps. validateProduct fs p = [])"
proof (induction ps arbitrary: new)
  case Nil
  then show ?case by simp
next
  case (Cons p ps)
  show ?case
  proof (cases "validateProduct fs p = []")
    case True
    then show ?thesis using Cons.IH [of new] by simp
  next
    case False
    then show ?thesis
      using validate_all_fold_keeps [of "assign (id' p) (validateProduct fs p) new" fs ps]
      by (simp add: assign_not_Nil)
  qed
qed

lemma validateAll_valid_iff:
  "fst (validateAll st) \<longleftrightarrow> (\<forall>p \<in> set (manualProducts st). validateProduct (formFields st) p = [])"
  by (simp add: validateAll_def Let_def validate_all_fold_Nil_iff)

lemma validateAll_state:
  "manualProducts (snd (validateAll st)) = manualProducts st
   \<and> formFields (snd (validateAll st)) = formFields st"
  by (simp add: validateAll_def Let_def)

lemma apiRequest_posted: "posted (snd (apiRequest respond p w)) = posted w @ [p]"
  by (simp add: apiRequest_def fetch_def split: prod.splits fetch_outcome.splits option.splits)



lemma validateProduct_second_row: "validateProduct formFields0 second_row = []"
  by (simp add: validateProduct_def formFields0_def validateField_def second_row_def row_def
        int_to_string_0 trim_def white_space_def code_pattern_def code_char_def)

lemma two_rows_valid: "fst (validateAll (form_with [filled_row, second_row]))"
  by (simp add: validateAll_valid_iff form_with_def validateProduct_filled_row
        validateProduct_second_row)

lemma two_rows_validated:
  "snd (validateAll (form_with [filled_row, second_row])) = form_with [filled_row, second_row]"
  by (simp add: validateAll_def form_with_def validateProduct_filled_row
        validateProduct_second_row)

lemma int_to_string_500: "int_to_string 500 = ''500''"
  by (simp add: int_to_string_def digits.simps)

lemma int_to_string_1: "int_to_string 1 = ''1''"
  by (simp add: int_to_string_def digits.simps)


lemma create_step_facts:
  "map index (creationResults (fst (create_step respond user i st w)))
     = map index (creationResults st) @ [i]
   \<and> createdCount (fst (create_step respond user i st w)) = createdCount st + 1
   \<and> totalToCreate (fst (create_step respond user i st w)) = totalToCreate st
   \<and> posted (snd (create_step respond user i st w)) = posted w @ [manualProducts st ! i]"
proof -
  obtain outcome w' where api: "apiRequest respond (manualProducts st ! i) w = (outcome, w')"
    by (cases "apiRequest respond (manualProducts st ! i) w")
  have "posted w' = posted w @ [manualProducts st ! i]"
    using apiRequest_posted [of respond "manualProducts st ! i" w] api by simp
  with api show ?thesis
    by (cases outcome) (simp_all add: create_step_def meanwhile_def Let_def comp_def)
qed

lemma create_step_alone:
  assumes "leaves_rows_alone user"
  shows "manualProducts (fst (create_step respond user i st w)) = manualProducts st
       \<and> map product (creationResults (fst (create_step respond user i st w)))
           = map product (creationResults st) @ [manualProducts st ! i]"
proof -
  obtain outcome w' where api: "apiRequest respond (manualProducts st ! i) w = (outcome, w')"
    by (cases "apiRequest respond (manualProducts st ! i) w")
  from assms have e: "edit (user n) p = p" and m: "manualProducts (act (user n) s) = manualProducts s"
    for n p s
    by (simp_all add: leaves_rows_alone_def)
  from api show ?thesis
    by (cases outcome) (simp_all add: create_step_def meanwhile_def Let_def comp_def e m)
qed

lemma create_loop_counts:
  assumes "create_loop respond user i st w = Some y"
  shows "\<exists>d. map index (creationResults (fst y)) = map index (creationResults st) @ [i ..< i + d]
           \<and> createdCount (fst y) = createdCount st + d
           \<and> length (posted (snd y)) = length (posted w) + d
           \<and> totalToCreate (fst y) = totalToCreate st"
proof (rule create_loop.raw_induct
         [where P = "\<lambda>respond user i st w y.
            \<exists>d. map index (creationResults (fst y)) = map index (creationResults st) @ [i ..< i + d]
              \<and> createdCount (fst y) = createdCount st + d
              \<and> length (posted (snd y)) = length (posted w) + d
              \<and> totalToCreate (fst y) = totalToCreate st",
          OF _ assms])
  fix loop :: "'a backend \<Rightarrow> 'a user \<Rightarrow> nat \<Rightarrow> form_state \<Rightarrow> 'a net \<Rightarrow> (form_state \<times> 'a net) option"
    and respond user i st w y
  assume IH: "\<And>respond user i st w y. loop respond user i st w = Some y \<Longrightarrow>
      \<exists>d. map index (creationResults (fst y)) = map index (creationResults st) @ [i ..< i + d]
        \<and> createdCount (fst y) = createdCount st + d
        \<and> length (posted (snd y)) = length (posted w) + d
        \<and> totalToCreate (fst y) = totalToCreate st"
    and body: "(if i < length (manualProducts st)
                then case create_step respond user i st w of
                       (st', w') \<Rightarrow> loop respond user (i + 1) st' w'
                else Some (st, w)) = Some y"
  show "\<exists>d. map index (creationResults (fst y)) = map index (creationResults st) @ [i ..< i + d]
          \<and> createdCount (fst y) = createdCount st + d
          \<and> length (posted (snd y)) = length (posted w) + d
          \<and> totalToCreate (fst y) = totalToCreate st"
  proof (cases "i < length (manualProducts st)")
    case False
    with body have "y = (st, w)" by simp
    then show ?thesis by (intro exI [of _ 0]) simp
  next
    case True
    obtain st' w' where step: "create_step respond user i st w = (st', w')"
      by (cases "create_step respond user i st w")
    with True body have "loop respond user (i + 1) st' w' = Some y" by simp
    from IH [OF this] obtain d where
      d: "map index (creationResults (fst y)) = map index (creationResults st') @ [i + 1 ..< i + 1 + d]"
         "createdCount (fst y) = createdCount st' + d"
         "length (posted (snd y)) = length (posted w') + d"
         "totalToCreate (fst y) = totalToCreate st'"
      by blast
    from create_step_facts [of respond user i st w] step
    have s: "map index (creationResults st') = map index (creationResults st) @ [i]"
            "createdCount st' = createdCount st + 1"
            "posted w' = posted w @ [manualProducts st ! i]"
            "totalToCreate st' = totalToCreate st"
      by simp_all
    have "[i ..< i + (d + 1)] = i # [i + 1 ..< i + 1 + d]"
      by (simp add: upt_conv_Cons)
    with d s show ?thesis by (intro exI [of _ "d + 1"]) simp
  qed
qed

lemma create_loop_returns:
  assumes "leaves_rows_alone user" and "i \<le> length (manualProducts st)"
  shows "\<exists>st3 w3. create_loop respond user i st w = Some (st3, w3)
           \<and> manualProducts st3 = manualProducts st
           \<and> totalToCreate st3 = totalToCreate st
           \<and> map index (creationResults st3)
               = map index (creationResults st) @ [i ..< length (manualProducts st)]
           \<and> map product (creationResults st3)
               = map product (creationResults st) @ drop i (manualProducts st)
           \<and> createdCount st3 = createdCount st + (length (manualProducts st) - i)
           \<and> posted w3 = posted w @ drop i (manualProducts st)"
  using assms(2)
proof (induction "length (manualProducts st) - i" arbitrary: i st w)
  case 0
  then have "create_loop respond user i st w = Some (st, w)"
    by (subst create_loop.simps) simp
  with 0 show ?case by simp
next
  case (Suc k)
  then have lt: "i < length (manualProducts st)" by simp
  obtain st' w' where step: "create_step respond user i st w = (st', w')"
    by (cases "create_step respond user i st w")
  from create_step_facts [of respond user i st w] create_step_alone [OF assms(1), of respond i st w] step
  have s: "map index (creationResults st') = map index (creationResults st) @ [i]"
          "createdCount st' = createdCount st + 1"
          "totalToCreate st' = totalToCreate st"
          "posted w' = posted w @ [manualProducts st ! i]"
          "manualProducts st' = manualProducts st"
          "map product (creationResults st') = map product (creationResults st) @ [manualProducts st ! i]"
    by simp_all
  have unfold: "create_loop respond user i st w = create_loop respond user (i + 1) st' w'"
    using lt step by (subst create_loop.simps) simp
  have k: "k = length (manualProducts st') - (i + 1)" using Suc.hyps(2) s(5) by simp
  have le: "i + 1 \<le> length (manualProducts st')" using lt s(5) by simp
  from Suc.hyps(1) [OF k le, of w'] obtain st3 w3 where
    r: "create_loop respond user (i + 1) st' w' = Some (st3, w3)"
       "manualProducts st3 = manualProducts st'"
       "totalToCreate st3 = totalToCreate st'"
       "map index (creationResults st3)
          = map index (creationResults st') @ [i + 1 ..< length (manualProducts st')]"
       "map product (creationResults st3)
          = map product (creationResults st') @ drop (i + 1) (manualProducts st')"
       "createdCount st3 = createdCount st' + (length (manualProducts st') - (i + 1))"
       "posted w3 = posted w' @ drop (i + 1) (manualProducts st')"
    by blast
  have dr: "drop i (manualProducts st) = manualProducts st ! i # drop (i + 1) (manualProducts st)"
    using lt by (simp add: Cons_nth_drop_Suc)
  have up: "[i ..< length (manualProducts st)] = i # [i + 1 ..< length (manualProducts st)]"
    using lt by (simp add: upt_conv_Cons)
  from r s lt show ?case
    unfolding unfold by (intro exI [of _ st3] exI [of _ w3]) (simp add: dr up)
qed

lemma leaves_rows_alone_idle: "leaves_rows_alone idle"
  by (simp add: leaves_rows_alone_def idle_def)

text \<open>
  Claim C5, as the code has it. A batch with a row that fails validation is not
  dispatched: \<open>createAllProducts\<close> returns with the message that asks to fix the errors,
  the network as it was and the state as \<open>validateAll\<close> leaves it, so that no row gets
  an outcome. For a batch whose rows all pass:
  \<^item> whatever the user does to the form meanwhile, \<open>createAllProducts\<close> returns exactly
    when the loop ends, with the network the loop leaves, and the loop leaves one
    outcome for each row it posted, numbered in the order of the posts, and
    \<open>totalToCreate\<close> at the number of rows the batch started with;
  \<^item> when the user leaves the rows alone, the loop ends, every row is posted whatever
    the outcomes of the rows before it, there is exactly one outcome per row in the
    order of the rows, and the rows that succeeded and the rows that failed add up to
    the number of rows, which is what the state and the message that
    \<open>createAllProducts\<close> returns report. The component has no skipped and no cancelled
    rows.
\<close>

theorem every_posted_row_gets_one_outcome:
  "(\<not> fst (validateAll st) \<longrightarrow>
      createAllProducts respond user st w
        = Some (snd (validateAll st), w,
                [''Please fix validation errors before creating products'']))
   \<and> (fst (validateAll st) \<longrightarrow>
        (case submitAll respond user (snd (validateAll st)) w of
           None \<Rightarrow> createAllProducts respond user st w = None
         | Some (st3, w3) \<Rightarrow>
             map index (creationResults st3) = [0 ..< length (creationResults st3)]
             \<and> createdCount st3 = length (creationResults st3)
             \<and> length (posted w3) = length (posted w) + length (creationResults st3)
             \<and> totalToCreate st3 = length (manualProducts st)
             \<and> (\<exists>st' msgs. createAllProducts respond user st w = Some (st', w3, msgs))))
   \<and> (fst (validateAll st) \<and> leaves_rows_alone user \<longrightarrow>
        (case submitAll respond user (snd (validateAll st)) w of
           None \<Rightarrow> False
         | Some (st3, w3) \<Rightarrow>
             (let n = length (manualProducts st);
                  rs = creationResults st3;
                  succeeded = length (filter success rs);
                  failed = length (filter (\<lambda>r. \<not> success r) rs)
              in map index rs = [0 ..< n]
                 \<and> map product rs = manualProducts st
                 \<and> createdCount st3 = n
                 \<and> totalToCreate st3 = n
                 \<and> posted w3 = posted w @ manualProducts st
                 \<and> succeeded + failed = n
                 \<and> createAllProducts respond user st w =
                     Some (if failed = 0 then (resetManualProducts st3)\<lparr>creating := False\<rparr>
                           else st3\<lparr>creating := False\<rparr>,
                           w3,
                           if failed = 0
                           then [''Successfully created '' @ int_to_string (int succeeded)
                                   @ '' products'']
                           else [''Created '' @ int_to_string (int succeeded) @ '' products, ''
                                   @ int_to_string (int failed) @ '' failed'']))))"
proof -
  let ?st1 = "snd (validateAll st)"
  let ?st2 = "?st1\<lparr>creating := True, createdCount := 0,
                     totalToCreate := length (manualProducts ?st1), creationResults := []\<rparr>"
  have va: "validateAll st = (fst (validateAll st), ?st1)" by simp
  have mp: "manualProducts ?st1 = manualProducts st" by (simp add: validateAll_state)
  have run: "submitAll respond user ?st1 w = create_loop respond user 0 ?st2 w"
    by (simp add: submitAll_def)
  have invalid: "createAllProducts respond user st w
        = Some (?st1, w, [''Please fix validation errors before creating products''])"
    if "\<not> fst (validateAll st)"
    using that by (subst createAllProducts_def, subst va) simp
  have never: "createAllProducts respond user st w = None"
    if "fst (validateAll st)" and "submitAll respond user ?st1 w = None"
    using that by (subst createAllProducts_def, subst va) simp
  have returns: "\<exists>st' msgs. createAllProducts respond user st w = Some (st', w3, msgs)"
    if "fst (validateAll st)" and "submitAll respond user ?st1 w = Some (st3, w3)" for st3 w3
    using that by (subst createAllProducts_def, subst va) (simp add: Let_def)
  have counts: "map index (creationResults st3) = [0 ..< length (creationResults st3)]
      \<and> createdCount st3 = length (creationResults st3)
      \<and> length (posted w3) = length (posted w) + length (creationResults st3)
      \<and> totalToCreate st3 = length (manualProducts st)"
    if "submitAll respond user ?st1 w = Some (st3, w3)" for st3 w3
  proof -
    from that run have "create_loop respond user 0 ?st2 w = Some (st3, w3)" by simp
    from create_loop_counts [OF this] obtain d where
      d: "map index (creationResults st3) = [0 ..< d]" "createdCount st3 = d"
         "length (posted w3) = length (posted w) + d"
         "totalToCreate st3 = length (manualProducts st)"
      by (auto simp: mp)
    from d(1) have "length (creationResults st3) = d"
      by (metis diff_zero length_map length_upt)
    with d show ?thesis by simp
  qed
  have general: "case submitAll respond user ?st1 w of
           None \<Rightarrow> createAllProducts respond user st w = None
         | Some (st3, w3) \<Rightarrow>
             map index (creationResults st3) = [0 ..< length (creationResults st3)]
             \<and> createdCount st3 = length (creationResults st3)
             \<and> length (posted w3) = length (posted w) + length (creationResults st3)
             \<and> totalToCreate st3 = length (manualProducts st)
             \<and> (\<exists>st' msgs. createAllProducts respond user st w = Some (st', w3, msgs))"
    if v: "fst (validateAll st)"
  proof (cases "submitAll respond user ?st1 w")
    case None
    with never [OF v] show ?thesis by simp
  next
    case (Some y)
    obtain st3 w3 where y: "y = (st3, w3)" by (cases y)
    with Some counts [of st3 w3] returns [OF v, of st3 w3] show ?thesis by simp
  qed
  have alone: "case submitAll respond user ?st1 w of
           None \<Rightarrow> False
         | Some (st3, w3) \<Rightarrow>
             (let n = length (manualProducts st);
                  rs = creationResults st3;
                  succeeded = length (filter success rs);
                  failed = length (filter (\<lambda>r. \<not> success r) rs)
              in map index rs = [0 ..< n]
                 \<and> map product rs = manualProducts st
                 \<and> createdCount st3 = n
                 \<and> totalToCreate st3 = n
                 \<and> posted w3 = posted w @ manualProducts st
                 \<and> succeeded + failed = n
                 \<and> createAllProducts respond user st w =
                     Some (if failed = 0 then (resetManualProducts st3)\<lparr>creating := False\<rparr>
                           else st3\<lparr>creating := False\<rparr>,
                           w3,
                           if failed = 0
                           then [''Successfully created '' @ int_to_string (int succeeded)
                                   @ '' products'']
                           else [''Created '' @ int_to_string (int succeeded) @ '' products, ''
                                   @ int_to_string (int failed) @ '' failed'']))"
    if v: "fst (validateAll st)" and u: "leaves_rows_alone user"
  proof -
    from create_loop_returns [OF u, of 0 ?st2 respond w] obtain st3 w3 where
      r: "create_loop respond user 0 ?st2 w = Some (st3, w3)"
         "totalToCreate st3 = length (manualProducts st)"
         "map index (creationResults st3) = [0 ..< length (manualProducts st)]"
         "map product (creationResults st3) = manualProducts st"
         "createdCount st3 = length (manualProducts st)"
         "posted w3 = posted w @ manualProducts st"
      by (auto simp: mp)
    from r(3) have len: "length (creationResults st3) = length (manualProducts st)"
      by (metis diff_zero length_map length_upt)
    have sum: "length (filter success (creationResults st3))
                 + length (filter (\<lambda>r. \<not> success r) (creationResults st3))
               = length (manualProducts st)"
      using sum_length_filter_compl [of success "creationResults st3"] len by simp
    have tot: "totalToCreate st3 = length (filter success (creationResults st3))
                 + length (filter (\<lambda>r. \<not> success r) (creationResults st3))"
      using sum r(2) by simp
    have sa: "submitAll respond user ?st1 w = Some (st3, w3)" using run r(1) by simp
    have out: "createAllProducts respond user st w =
        Some (if length (filter (\<lambda>r. \<not> success r) (creationResults st3)) = 0
              then (resetManualProducts st3)\<lparr>creating := False\<rparr> else st3\<lparr>creating := False\<rparr>,
              w3,
              if length (filter (\<lambda>r. \<not> success r) (creationResults st3)) = 0
              then [''Successfully created ''
                      @ int_to_string (int (length (filter success (creationResults st3))))
                      @ '' products'']
              else [''Created ''
                      @ int_to_string (int (length (filter success (creationResults st3))))
                      @ '' products, ''
                      @ int_to_string (int (length (filter (\<lambda>r. \<not> success r)
                                                     (creationResults st3))))
                      @ '' failed''])"
      using v sa by (subst createAllProducts_def, subst va) (simp add: Let_def tot)
    from sa r sum out show ?thesis by (simp add: Let_def)
  qed
  from invalid general alone show ?thesis by blast
qed

lemma two_rows_run:
  "submitAll first_fails idle (form_with [filled_row, second_row]) net1 =
     Some ((form_with [filled_row, second_row])
             \<lparr>creating := True, createdCount := 2, totalToCreate := 2,
              creationResults :=
                [\<lparr>index = 0, product = filled_row, success = False,
                  error = Some ''HTTP error! status: 500''\<rparr>,
                 \<lparr>index = 1, product = second_row, success = True, error = None\<rparr>]\<rparr>,
           \<lparr>server = 2, posted = [filled_row, second_row]\<rparr>)"
  unfolding submitAll_def
  apply (subst create_loop.simps)
  apply (simp add: form_with_def create_step_def meanwhile_def idle_def apiRequest_def fetch_def
           first_fails_def net1_def int_to_string_500 Let_def)
  apply (subst create_loop.simps)
  apply (simp add: create_step_def meanwhile_def idle_def apiRequest_def fetch_def
           first_fails_def Let_def)
  apply (subst create_loop.simps)
  apply simp
  done

theorem every_posted_row_gets_one_outcome_witness:
  "\<not> fst (validateAll (form_with [filled_row, empty_row]))
   \<and> createAllProducts first_fails idle (form_with [filled_row, empty_row]) net1
       = Some (snd (validateAll (form_with [filled_row, empty_row])), net1,
               [''Please fix validation errors before creating products''])
   \<and> fst (validateAll (form_with [filled_row, second_row]))
   \<and> leaves_rows_alone (idle :: nat user)
   \<and> submitAll first_fails idle (snd (validateAll (form_with [filled_row, second_row]))) net1 =
       Some ((form_with [filled_row, second_row])
               \<lparr>creating := True, createdCount := 2, totalToCreate := 2,
                creationResults :=
                  [\<lparr>index = 0, product = filled_row, success = False,
                    error = Some ''HTTP error! status: 500''\<rparr>,
                   \<lparr>index = 1, product = second_row, success = True, error = None\<rparr>]\<rparr>,
             \<lparr>server = 2, posted = [filled_row, second_row]\<rparr>)
   \<and> createAllProducts first_fails idle (form_with [filled_row, second_row]) net1 =
       Some ((form_with [filled_row, second_row])
               \<lparr>creating := False, createdCount := 2, totalToCreate := 2,
                creationResults :=
                  [\<lparr>index = 0, product = filled_row, success = False,
                    error = Some ''HTTP error! status: 500''\<rparr>,
                   \<lparr>index = 1, product = second_row, success = True, error = None\<rparr>]\<rparr>,
             \<lparr>server = 2, posted = [filled_row, second_row]\<rparr>,
             [''Created 1 products, 1 failed''])"
proof -
  note v = two_rows_valid
  have u: "leaves_rows_alone (idle :: nat user)" by (rule leaves_rows_alone_idle)
  from every_posted_row_gets_one_outcome
         [where st = "form_with [filled_row, second_row]" and respond = first_fails
            and user = idle and w = net1] v u
  have "createAllProducts first_fails idle (form_with [filled_row, second_row]) net1 =
       Some ((form_with [filled_row, second_row])
               \<lparr>creating := False, createdCount := 2, totalToCreate := 2,
                creationResults :=
                  [\<lparr>index = 0, product = filled_row, success = False,
                    error = Some ''HTTP error! status: 500''\<rparr>,
                   \<lparr>index = 1, product = second_row, success = True, error = None\<rparr>]\<rparr>,
             \<lparr>server = 2, posted = [filled_row, second_row]\<rparr>,
             [''Created 1 products, 1 failed''])"
    by (simp add: two_rows_validated two_rows_run Let_def int_to_string_1)
  moreover have nv: "\<not> fst (validateAll (form_with [filled_row, empty_row]))"
    by (simp add: validateAll_valid_iff form_with_def validateProduct_empty_row)
  moreover from every_posted_row_gets_one_outcome
         [where st = "form_with [filled_row, empty_row]" and respond = first_fails
            and user = idle and w = net1] nv
  have "createAllProducts first_fails idle (form_with [filled_row, empty_row]) net1
       = Some (snd (validateAll (form_with [filled_row, empty_row])), net1,
               [''Please fix validation errors before creating products''])"
    by blast
  ultimately show ?thesis using v u by (simp add: two_rows_validated two_rows_run)
qed

text \<open>
  The rows that are posted are those the loop finds, not those the batch started
  with. When the second of two rows is removed while the first is in flight, one row
  is posted and gets its outcome, a success, and the message reports one failure:
  \<open>failCount\<close> is what is missing from \<open>totalToCreate\<close>, not the number of outcomes
  that failed.
\<close>

lemma removed_row_is_reported_failed:
  "createAllProducts accepting removes_last (form_with [filled_row, second_row]) net0 =
     Some ((form_with [filled_row, second_row])
             \<lparr>manualProducts := [filled_row], creating := False, createdCount := 1,
              totalToCreate := 2,
              creationResults :=
                [\<lparr>index = 0, product = filled_row, success = True, error = None\<rparr>]\<rparr>,
           \<lparr>server = (), posted = [filled_row]\<rparr>,
           [''Created 1 products, 1 failed''])"
proof -
  have va: "validateAll (form_with [filled_row, second_row])
              = (True, form_with [filled_row, second_row])"
    using two_rows_valid two_rows_validated
    by (cases "validateAll (form_with [filled_row, second_row])") simp
  have run: "submitAll accepting removes_last (form_with [filled_row, second_row]) net0 =
     Some ((form_with [filled_row, second_row])
             \<lparr>manualProducts := [filled_row], creating := True, createdCount := 1,
              totalToCreate := 2,
              creationResults :=
                [\<lparr>index = 0, product = filled_row, success = True, error = None\<rparr>]\<rparr>,
           \<lparr>server = (), posted = [filled_row]\<rparr>)"
    unfolding submitAll_def
    apply (subst create_loop.simps)
    apply (simp add: form_with_def create_step_def meanwhile_def removes_last_def
             removeProduct_def apiRequest_def fetch_def accepting_def net0_def Let_def)
    apply (subst create_loop.simps)
    apply simp
    done
  show ?thesis
    by (simp add: createAllProducts_def va run Let_def int_to_string_1)
qed

text \<open>
  Claim C5 as stated fails for a batch with a row that does not pass validation. A
  form with a valid and an invalid row has two records; \<open>createAllProducts\<close> returns
  with nothing posted, no outcome recorded and every count at 0, so the counts do
  not add up to the number of records.
\<close>

theorem invalid_batch_has_no_outcome_counterexample:
  "length (manualProducts (form_with [filled_row, empty_row])) = 2
   \<and> createAllProducts accepting idle (form_with [filled_row, empty_row]) net0
       = Some (snd (validateAll (form_with [filled_row, empty_row])), net0,
               [''Please fix validation errors before creating products''])
   \<and> creationResults (snd (validateAll (form_with [filled_row, empty_row]))) = []
   \<and> createdCount (snd (validateAll (form_with [filled_row, empty_row]))) = 0
   \<and> totalToCreate (snd (validateAll (form_with [filled_row, empty_row]))) = 0
   \<and> posted net0 = []"
proof -
  have "\<not> fst (validateAll (form_with [filled_row, empty_row]))"
    by (simp add: validateAll_valid_iff form_with_def validateProduct_empty_row)
  then have "createAllProducts accepting idle (form_with [filled_row, empty_row]) net0
       = Some (snd (validateAll (form_with [filled_row, empty_row])), net0,
               [''Please fix validation errors before creating products''])"
    by (cases "validateAll (form_with [filled_row, empty_row])")
       (simp add: createAllProducts_def)
  then show ?thesis
    by (simp add: validateAll_def Let_def form_with_def net0_def)
qed





text \<open>
  Claim C1 on the code: the product \<^verbatim>\<open>{ name: 'Test', price: -1 }\<close> of the guide's unit
  test "validates numeric fields". Two rules of the field \<open>price\<close> fail, in this order:
  "Price must be greater than 0" and "Must be 0 or greater". \<open>validateProduct\<close> keeps
  the second: the later assignment overwrites the message of the first failing rule,
  which the test expects.
\<close>

theorem negative_price_keeps_later_message:
  "field_messages \<lparr>key = ''price'', label = ''Price *'', type' = ''number'', min' = Some 0,
                    required = True\<rparr> negative_price
     = [''Price must be greater than 0'', ''Must be 0 or greater'']
   \<and> map_of (validateProduct formFields0 negative_price) ''price'' = Some ''Must be 0 or greater''
   \<and> map_of (validateProduct formFields0 negative_price) ''price''
       \<noteq> Some ''Price must be greater than 0''"
  by (simp add: validateProduct_negative_price)
     (simp add: field_messages_def negative_price_def row_def int_to_string_0)

text \<open>
  Claim C10 on the code. A fresh row has no name, and \<open>getFieldError\<close> reports "Name is
  required" for it and stores the errors of the row. Once the row is filled in,
  \<open>validateProduct\<close> finds no error in it and \<open>hasValidationErrors\<close> is false, but
  \<open>getFieldError\<close> still answers "Name is required" from the stored entry. \<open>validateAll\<close>
  on the same state computes the errors anew and finds none.
\<close>

theorem getFieldError_serves_stale_error:
  "fst (getFieldError (form_with [empty_row]) empty_row ''name'') = Some ''Name is required''
   \<and> id' filled_row = id' empty_row
   \<and> validateProduct formFields0 filled_row = []
   \<and> \<not> hasValidationErrors formFields0 filled_row
   \<and> fst (getFieldError
            ((snd (getFieldError (form_with [empty_row]) empty_row ''name''))
               \<lparr>manualProducts := [filled_row]\<rparr>)
            filled_row ''name'') = Some ''Name is required''
   \<and> validationErrors (snd (validateAll
            ((snd (getFieldError (form_with [empty_row]) empty_row ''name''))
               \<lparr>manualProducts := [filled_row]\<rparr>))) = []"
  by (simp add: getFieldError_def validateAll_def form_with_def hasValidationErrors_def
        validateProduct_empty_row validateProduct_filled_row Let_def)
     (simp add: empty_row_def filled_row_def row_def)

text \<open>
  The part of claim C10 that holds: \<open>validateAll\<close> depends on the rows and the fields
  only, not on the stored errors, and running it again on the state it leaves gives
  the same answer and the same stored errors.
\<close>

lemma validateAll_recomputes:
  "fst (validateAll (st\<lparr>validationErrors := cache\<rparr>)) = fst (validateAll st)
   \<and> validationErrors (snd (validateAll (st\<lparr>validationErrors := cache\<rparr>)))
       = validationErrors (snd (validateAll st))
   \<and> validateAll (snd (validateAll st)) = validateAll st"
  by (simp add: validateAll_def Let_def)

end
